theory Spec2Isabelle
  imports Main "HOL-Library.Word"
begin

section \<open>Go runtime failures and library routines used by the segments\<close>

text \<open>
  A Go panic in any goroutine ends the whole process; \<open>log.Fatal\<close> exits it. Both are
  values of the model, so that every path of the source on which the program stops is a
  branch of the embedding.
\<close>

datatype go_panic =
    IndexOutOfRange
  | SliceBoundsOutOfRange
  | NilPointerDereference
  | NilFuncCall
  | NegativeWaitGroupCounter

subsection \<open>strconv.Atoi and strconv.ParseUint (base 10)\<close>

definition is_digit :: "char \<Rightarrow> bool" where
  "is_digit c = (48 \<le> (of_char c :: nat) \<and> (of_char c :: nat) \<le> 57)"

definition digit_val :: "char \<Rightarrow> int" where
  "digit_val c = of_char c - 48"

fun digits_val :: "int \<Rightarrow> string \<Rightarrow> int" where
  "digits_val acc [] = acc"
| "digits_val acc (c # cs) = digits_val (10 * acc + digit_val c) cs"

text \<open>
  \<open>strconv.Atoi\<close>: an optional sign, then at least one decimal digit and nothing else
  (no underscores in base 10); the value has to fit Go's 64-bit \<open>int\<close>.
\<close>

definition Atoi :: "string \<Rightarrow> int option" where
  "Atoi s =
     (let neg = (s \<noteq> [] \<and> hd s = CHR ''-'');
          ds = (if s \<noteq> [] \<and> (hd s = CHR ''-'' \<or> hd s = CHR ''+'') then tl s else s)
      in if ds = [] \<or> \<not> list_all is_digit ds then None
         else let n = digits_val 0 ds; v = (if neg then - n else n)
              in if v < - (2 ^ 63) \<or> 2 ^ 63 - 1 < v then None else Some v)"

text \<open>
  \<open>strconv.ParseUint(s, 10, bitSize)\<close>: at least one decimal digit and nothing else, no
  sign; the value has to be below \<open>2 ^ bitSize\<close>.
\<close>

definition ParseUint :: "string \<Rightarrow> nat \<Rightarrow> int option" where
  "ParseUint s bitSize =
     (if s = [] \<or> \<not> list_all is_digit s then None
      else let n = digits_val 0 s in if n < 2 ^ bitSize then Some n else None)"

section \<open>The flow record\<close>

text \<open>
  The fields of \<open>pb.EnrichedFlow\<close> that the modelled segments read or write. The channels
  of the pipeline carry pointers to such records. For the Lumberjack and the goflow
  segment a pointer is an \<open>EnrichedFlow option\<close>, with \<open>None\<close> for \<open>nil\<close>; the protomap
  segment is given the records themselves, that is, pointers that are not \<open>nil\<close>.
\<close>

record EnrichedFlow =
  Proto :: "32 word"
  ProtoName :: string
  TimeFlowStartMs :: "64 word"
  TimeFlowEndMs :: "64 word"
  TimeFlowStartNs :: "64 word"
  TimeFlowEndNs :: "64 word"
  Bytes :: "64 word"
  Packets :: "64 word"
  Etype :: "32 word"
  IcmpType :: "32 word"
  IcmpCode :: "32 word"

section \<open>utils/iana.go: the IANA protocol number table\<close>

definition largestIanaProtoNameIndex :: nat where
  "largestIanaProtoNameIndex = 256"

text \<open>
  \<open>IanaProtocolNumberNames\<close> is a Go array of \<open>largestIanaProtoNameIndex\<close> strings, all
  empty before \<open>init\<close> runs. The embedded CSV file is not part of the sources, so its rows
  are a parameter of \<open>iana_init\<close>. A store outside the array is a panic.
\<close>

definition IanaProtocolNumberNames0 :: "string list" where
  "IanaProtocolNumberNames0 = replicate largestIanaProtoNameIndex []"

definition iana_init_row :: "string list \<Rightarrow> string list \<Rightarrow> go_panic + string list" where
  "iana_init_row names row =
     (if length row < 3 then Inr names
      else case Atoi (row ! 0) of
             None \<Rightarrow> Inr names
           | Some idx \<Rightarrow>
               if idx < 0 \<or> int (length names) \<le> idx then Inl IndexOutOfRange
               else if row ! 1 \<noteq> [] then Inr (names[nat idx := row ! 1])
               else Inr (names[nat idx := row ! 2]))"

fun iana_init_rows :: "string list \<Rightarrow> string list list \<Rightarrow> go_panic + string list" where
  "iana_init_rows names [] = Inr names"
| "iana_init_rows names (row # rows) =
     (case iana_init_row names row of
        Inl p \<Rightarrow> Inl p
      | Inr names' \<Rightarrow> iana_init_rows names' rows)"

definition iana_init :: "string list list \<Rightarrow> go_panic + string list" where
  "iana_init csvRows = iana_init_rows IanaProtocolNumberNames0 csvRows"

text \<open>
  \<open>IanaProtocolNumberToName\<close>: the guard is \<open>protocolNumber > largestIanaProtoNameIndex\<close>;
  the array read that follows is bounds-checked by the Go runtime.
\<close>

definition IanaProtocolNumberToName :: "string list \<Rightarrow> 32 word \<Rightarrow> go_panic + string" where
  "IanaProtocolNumberToName names protocolNumber =
     (if unat protocolNumber > largestIanaProtoNameIndex then Inr []
      else if unat protocolNumber < length names then Inr (names ! unat protocolNumber)
      else Inl IndexOutOfRange)"

text \<open>
  The same loop of \<open>init\<close> fills \<open>IanaProtocolNumberLowercaseNames\<close>, a second array of
  the same length, with \<open>strings.ToLower\<close> of the same column (here on the ASCII
  letters); \<open>IanaProtocolNumberToLowercaseName\<close> reads it under the same guard.
\<close>

definition ToLower_char :: "char \<Rightarrow> char" where
  "ToLower_char c =
     (case map_of (zip ''ABCDEFGHIJKLMNOPQRSTUVWXYZ'' ''abcdefghijklmnopqrstuvwxyz'') c of
        None \<Rightarrow> c
      | Some l \<Rightarrow> l)"

definition ToLower :: "string \<Rightarrow> string" where
  "ToLower s = map ToLower_char s"

definition iana_init_row_lowercase :: "string list \<Rightarrow> string list \<Rightarrow> go_panic + string list" where
  "iana_init_row_lowercase names row =
     (if length row < 3 then Inr names
      else case Atoi (row ! 0) of
             None \<Rightarrow> Inr names
           | Some idx \<Rightarrow>
               if idx < 0 \<or> int (length names) \<le> idx then Inl IndexOutOfRange
               else if row ! 1 \<noteq> [] then Inr (names[nat idx := ToLower (row ! 1)])
               else Inr (names[nat idx := ToLower (row ! 2)]))"

fun iana_init_rows_lowercase :: "string list \<Rightarrow> string list list \<Rightarrow> go_panic + string list" where
  "iana_init_rows_lowercase names [] = Inr names"
| "iana_init_rows_lowercase names (row # rows) =
     (case iana_init_row_lowercase names row of
        Inl p \<Rightarrow> Inl p
      | Inr names' \<Rightarrow> iana_init_rows_lowercase names' rows)"

definition iana_init_lowercase :: "string list list \<Rightarrow> go_panic + string list" where
  "iana_init_lowercase csvRows = iana_init_rows_lowercase IanaProtocolNumberNames0 csvRows"

definition IanaProtocolNumberToLowercaseName :: "string list \<Rightarrow> 32 word \<Rightarrow> go_panic + string" where
  "IanaProtocolNumberToLowercaseName lowercaseNames protocolNumber =
     (if unat protocolNumber > largestIanaProtoNameIndex then Inr []
      else if unat protocolNumber < length lowercaseNames
      then Inr (lowercaseNames ! unat protocolNumber)
      else Inl IndexOutOfRange)"

section \<open>The protomap segment\<close>

text \<open>
  \<open>Protomap.Run\<close> ranges over \<open>In\<close>; the result is the list of records sent on \<open>Out\<close>
  and the panic that ended the loop, if any.
\<close>

fun Protomap_Run :: "string list \<Rightarrow> EnrichedFlow list \<Rightarrow> EnrichedFlow list \<times> go_panic option" where
  "Protomap_Run names [] = ([], None)"
| "Protomap_Run names (msg # rest) =
     (case IanaProtocolNumberToName names (Proto msg) of
        Inl p \<Rightarrow> ([], Some p)
      | Inr proto \<Rightarrow>
          (let proto' = (if proto = [] then ''UNKNOWN'' else proto);
               r = Protomap_Run names rest
           in (msg\<lparr>ProtoName := proto'\<rparr> # fst r, snd r)))"

section \<open>Library routines used by the constructors\<close>

subsection \<open>strings.Split, strings.TrimSpace, strings.ReplaceAll, strconv.ParseBool\<close>

text \<open>\<open>strings.Split(s, sep)\<close> for a one-byte separator: never an empty list.\<close>

fun Split :: "string \<Rightarrow> char \<Rightarrow> string list" where
  "Split [] sep = [[]]"
| "Split (c # cs) sep =
     (if c = sep then [] # Split cs sep
      else (case Split cs sep of
              [] \<Rightarrow> [[c]]
            | w # ws \<Rightarrow> (c # w) # ws))"

text \<open>
  \<open>strings.TrimSpace\<close> on the ASCII white space characters (tab, line feed, vertical tab,
  form feed, carriage return, space); the multi-byte Unicode spaces are left out.
\<close>

definition is_space :: "char \<Rightarrow> bool" where
  "is_space c = ((of_char c :: nat) \<in> {9, 10, 11, 12, 13, 32})"

definition TrimSpace :: "string \<Rightarrow> string" where
  "TrimSpace s = rev (dropWhile is_space (rev (dropWhile is_space s)))"

text \<open>\<open>strings.ReplaceAll(s, "_", "")\<close>.\<close>

definition strip_underscores :: "string \<Rightarrow> string" where
  "strip_underscores s = filter (\<lambda>c. c \<noteq> CHR ''_'') s"

definition ParseBool :: "string \<Rightarrow> bool option" where
  "ParseBool s =
     (if s \<in> {''1'', ''t'', ''T'', ''TRUE'', ''true'', ''True''} then Some True
      else if s \<in> {''0'', ''f'', ''F'', ''FALSE'', ''false'', ''False''} then Some False
      else None)"

subsection \<open>Parsed URLs\<close>

text \<open>
  The result of \<open>url.Parse\<close> as far as the segments read it: the scheme, the authority
  \<open>host:port\<close> and the query parameters. \<open>url.Parse\<close> itself and \<open>time.ParseDuration\<close>
  belong to the Go library; the constructors take them as parameters
  (\<open>None\<close> is their error return).
\<close>

record URL =
  Scheme :: string
  Host :: string
  Query :: "(string \<times> string) list"

definition query_Get :: "(string \<times> string) list \<Rightarrow> string \<Rightarrow> string" where
  "query_Get q k = (case map_of q k of None \<Rightarrow> [] | Some v \<Rightarrow> v)"

text \<open>
  \<open>URL.Port\<close>: the text after the last colon of the host, when that text is empty or all
  digits; otherwise the empty string.
\<close>

definition validOptionalPort :: "string \<Rightarrow> bool" where
  "validOptionalPort port =
     (case port of
        [] \<Rightarrow> True
      | c # cs \<Rightarrow> c = CHR '':'' \<and> list_all is_digit cs)"

text \<open>The suffix of a string that starts at its last colon, if there is a colon.\<close>

fun from_last_colon :: "string \<Rightarrow> string option" where
  "from_last_colon [] = None"
| "from_last_colon (c # cs) =
     (case from_last_colon cs of
        Some r \<Rightarrow> Some r
      | None \<Rightarrow> (if c = CHR '':'' then Some (c # cs) else None))"

definition URL_Port :: "URL \<Rightarrow> string" where
  "URL_Port u =
     (case from_last_colon (Host u) of
        None \<Rightarrow> []
      | Some r \<Rightarrow> (if validOptionalPort r then tl r else []))"

text \<open>A Go \<open>map[string]string\<close>: reading a missing key gives the empty string.\<close>

type_synonym config = "string \<rightharpoonup> string"

definition cfg :: "config \<Rightarrow> string \<Rightarrow> string" where
  "cfg config k = (case config k of None \<Rightarrow> [] | Some v \<Rightarrow> v)"

section \<open>The Lumberjack segment: New\<close>

definition defaultQueueSize :: int where "defaultQueueSize = 65536"
definition defaultBatchSize :: int where "defaultBatchSize = 64"

text \<open>\<open>time.Duration\<close> counts nanoseconds.\<close>

definition Millisecond :: int where "Millisecond = 1000000"
definition Second :: int where "Second = 1000000000"
definition Minute :: int where "Minute = 60 * Second"

definition defaultTimeout :: int where "defaultTimeout = 5 * Second"
definition minimalBatchTimeout :: int where "minimalBatchTimeout = 50 * Millisecond"
definition defaultQueueStatusInterval :: int where "defaultQueueStatusInterval = 0 * Second"
definition defaultReconnectWait :: int where "defaultReconnectWait = 1 * Second"

record ServerOptions =
  UseTLS :: bool
  VerifyCertificate :: bool
  CompressionLevel :: int
  Parallelism :: int

text \<open>
  \<open>BatchDebugPrintf\<close> is a function value: one of the two printing functions of the
  package, or \<open>nil\<close> (\<open>None\<close>) as in the zero value \<open>&Lumberjack{}\<close> that \<open>init\<close> registers.
\<close>

datatype DebugPrintf = NoDebugPrintf | DoDebugPrintf

text \<open>
  \<open>Servers\<close> is a Go map from host to options, kept as an association list with one entry
  per host; \<open>LumberjackOut_cap\<close> is the capacity of the buffered channel \<open>LumberjackOut\<close>.
\<close>

record Lumberjack =
  Servers :: "(string \<times> ServerOptions) list"
  BatchSize :: int
  BatchTimeout :: int
  BatchDebugPrintf :: "DebugPrintf option"
  QueueStatusInterval :: int
  ReconnectWait :: int
  LumberjackOut_cap :: int

text \<open>The prototype that \<open>init\<close> registers: \<open>&Lumberjack{}\<close>.\<close>

definition Lumberjack_zero :: Lumberjack where
  "Lumberjack_zero =
     \<lparr>Servers = [], BatchSize = 0, BatchTimeout = 0, BatchDebugPrintf = None,
      QueueStatusInterval = 0, ReconnectWait = 0, LumberjackOut_cap = 0\<rparr>"

text \<open>Every \<open>log.Fatal\<close> of \<open>New\<close> ends the process; the value says which one.\<close>

datatype fatal =
    FatalCompression
  | FatalServerURL
  | FatalScheme
  | FatalCount
  | FatalBatchSize
  | FatalBatchTimeout
  | FatalBatchDebug
  | FatalReconnectWait
  | FatalQueueStatusInterval
  | FatalQueueSize

definition bindE :: "'e + 'a \<Rightarrow> ('a \<Rightarrow> 'e + 'b) \<Rightarrow> 'e + 'b" where
  "bindE m f = (case m of Inl e \<Rightarrow> Inl e | Inr x \<Rightarrow> f x)"

definition parse_compression :: "int \<Rightarrow> string \<Rightarrow> fatal + int" where
  "parse_compression dflt s =
     (if s = [] then Inr dflt
      else case Atoi s of
             None \<Rightarrow> Inl FatalCompression
           | Some c \<Rightarrow> if c < 0 \<or> c > 9 then Inl FatalCompression else Inr c)"

definition parse_scheme :: "string \<Rightarrow> fatal + (bool \<times> bool)" where
  "parse_scheme s =
     (if s = ''tcp'' then Inr (False, False)
      else if s = ''tls'' then Inr (True, True)
      else if s = ''tlsnoverify'' then Inr (True, False)
      else Inl FatalScheme)"

definition parse_count :: "string \<Rightarrow> fatal + int" where
  "parse_count s =
     (if s = [] then Inr 1
      else case Atoi s of
             None \<Rightarrow> Inl FatalCount
           | Some n \<Rightarrow> if n < 1 then Inr 1 else Inr n)"

definition parse_server ::
  "(string \<Rightarrow> URL option) \<Rightarrow> int \<Rightarrow> string \<Rightarrow> fatal + (string \<times> ServerOptions)" where
  "parse_server url_Parse defaultCompression rawServerString =
     (case url_Parse rawServerString of
        None \<Rightarrow> Inl FatalServerURL
      | Some serverURL \<Rightarrow>
          bindE (parse_scheme (Scheme serverURL)) (\<lambda>(useTLS, verifyTLS).
          bindE (parse_compression defaultCompression
                   (query_Get (Query serverURL) ''compression'')) (\<lambda>compressionLevel.
          bindE (parse_count (query_Get (Query serverURL) ''count'')) (\<lambda>numRoutines.
          Inr (Host serverURL,
               \<lparr>UseTLS = useTLS, VerifyCertificate = verifyTLS,
                CompressionLevel = compressionLevel, Parallelism = numRoutines\<rparr>)))))"

text \<open>Storing into the map: the entry of a host that is already present is replaced.\<close>

fun map_store :: "string \<Rightarrow> ServerOptions \<Rightarrow> (string \<times> ServerOptions) list
    \<Rightarrow> (string \<times> ServerOptions) list" where
  "map_store k v [] = [(k, v)]"
| "map_store k v ((k', v') # rest) =
     (if k = k' then (k, v) # rest else (k', v') # map_store k v rest)"

fun parse_servers ::
  "(string \<Rightarrow> URL option) \<Rightarrow> int \<Rightarrow> string list \<Rightarrow> (string \<times> ServerOptions) list
    \<Rightarrow> fatal + (string \<times> ServerOptions) list" where
  "parse_servers url_Parse dc [] servers = Inr servers"
| "parse_servers url_Parse dc (raw # raws) servers =
     bindE (parse_server url_Parse dc raw) (\<lambda>(host, options).
       parse_servers url_Parse dc raws (map_store host options servers))"

definition parse_batchsize :: "string \<Rightarrow> fatal + int" where
  "parse_batchsize s =
     bindE (if s \<noteq> [] then
              (case Atoi (strip_underscores s) of
                 None \<Rightarrow> Inl FatalBatchSize
               | Some n \<Rightarrow> Inr n)
            else Inr defaultBatchSize)
       (\<lambda>n. Inr (if n < 0 then defaultBatchSize else n))"

definition parse_batchtimeout :: "(string \<Rightarrow> int option) \<Rightarrow> string \<Rightarrow> fatal + int" where
  "parse_batchtimeout ParseDuration s =
     bindE (if s \<noteq> [] then
              (case ParseDuration s of
                 None \<Rightarrow> Inl FatalBatchTimeout
               | Some d \<Rightarrow> Inr d)
            else Inr defaultTimeout)
       (\<lambda>t. let t1 = (if t < minimalBatchTimeout then defaultTimeout else t);
                t2 = (if t1 > Minute then defaultTimeout else t1)
            in Inr t2)"

definition parse_batchdebug :: "DebugPrintf option \<Rightarrow> string \<Rightarrow> fatal + DebugPrintf option" where
  "parse_batchdebug old s =
     (if s \<noteq> [] then
        (case ParseBool s of
           None \<Rightarrow> Inl FatalBatchDebug
         | Some batchDebug \<Rightarrow> Inr (Some (if batchDebug then DoDebugPrintf else NoDebugPrintf)))
      else Inr old)"

definition parse_duration_option ::
  "(string \<Rightarrow> int option) \<Rightarrow> fatal \<Rightarrow> int \<Rightarrow> string \<Rightarrow> fatal + int" where
  "parse_duration_option ParseDuration err dflt s =
     (if s \<noteq> [] then
        (case ParseDuration s of
           None \<Rightarrow> Inl err
         | Some d \<Rightarrow> Inr d)
      else Inr dflt)"

definition parse_queuesize :: "string \<Rightarrow> fatal + int" where
  "parse_queuesize s =
     bindE (if s \<noteq> [] then
              (case Atoi (strip_underscores s) of
                 None \<Rightarrow> Inl FatalQueueSize
               | Some n \<Rightarrow> Inr n)
            else Inr defaultQueueSize)
       (\<lambda>bufferLength. Inr (if bufferLength < 64 then defaultQueueSize else bufferLength))"

text \<open>
  \<open>Lumberjack.New\<close> has a pointer receiver and fills in the receiver itself: a field that
  this call does not assign keeps the value it had. The branch for an empty server list
  is dead code, since \<open>strings.Split\<close> never returns an empty slice.
\<close>

definition Lumberjack_New ::
  "(string \<Rightarrow> URL option) \<Rightarrow> (string \<Rightarrow> int option) \<Rightarrow> Lumberjack \<Rightarrow> config
    \<Rightarrow> fatal + Lumberjack" where
  "Lumberjack_New url_Parse ParseDuration segment config =
     bindE (parse_compression 0 (cfg config ''compression'')) (\<lambda>defaultCompression.
     bindE (parse_servers url_Parse defaultCompression
              (map TrimSpace (Split (cfg config ''servers'') CHR '','')) []) (\<lambda>servers.
     bindE (parse_batchsize (cfg config ''batchsize'')) (\<lambda>batchSize.
     bindE (parse_batchtimeout ParseDuration (cfg config ''batchtimeout'')) (\<lambda>batchTimeout.
     bindE (parse_batchdebug (BatchDebugPrintf segment) (cfg config ''batchdebug'')) (\<lambda>printf.
     bindE (parse_duration_option ParseDuration FatalReconnectWait defaultReconnectWait
              (cfg config ''reconnectwait'')) (\<lambda>reconnectWait.
     bindE (parse_duration_option ParseDuration FatalQueueStatusInterval
              defaultQueueStatusInterval (cfg config ''queuestatusinterval'')) (\<lambda>interval.
     bindE (parse_queuesize (cfg config ''queuesize'')) (\<lambda>bufferLength.
     Inr (segment\<lparr>Servers := servers, BatchSize := batchSize, BatchTimeout := batchTimeout,
            BatchDebugPrintf := printf, QueueStatusInterval := interval,
            ReconnectWait := reconnectWait, LumberjackOut_cap := bufferLength\<rparr>)))))))))"

section \<open>The ECS document of a flow\<close>

text \<open>
  \<open>ECSEvent\<close> with the fields of the struct in their order of declaration. \<open>Created\<close> and
  \<open>Duration\<close> are \<open>int64\<close> (read with \<open>sint\<close>), \<open>Start\<close> and \<open>End\<close> are \<open>uint64\<close>.
\<close>

record ECSEvent =
  Kind :: string
  Category :: "string list"
  Type :: "string list"
  Outcome :: string
  Created :: "64 word"
  Start :: "64 word"
  End :: "64 word"
  Duration :: "64 word"
  Provider :: string
  Module :: string

text \<open>The network block and the ICMP block of the document.\<close>

record ECSNetwork =
  IanaNumber :: "32 word"
  Transport :: string
  Network_Bytes :: "64 word"
  Network_Packets :: "64 word"
  Network_Type :: string

record ECSRelatedICMP =
  ICMP_Type :: "32 word"
  ICMP_Code :: "32 word"

text \<open>
  Of \<open>ElasticCommonSchema\<close> the embedding keeps the time stamp, the event block, the
  network block and the ICMP block (a pointer that may be \<open>nil\<close>). The source,
  destination and related blocks are left out: they hold strings made by \<open>net/netip\<close>
  and by the MAC formatting of package \<open>pb\<close>, whose code is not among the sources.
\<close>

record ElasticCommonSchema =
  Timestamp :: "64 word"
  Event :: ECSEvent
  ICMP :: "ECSRelatedICMP option"
  Network :: ECSNetwork

definition ECSEventDefaultModule :: string where "ECSEventDefaultModule = ''lumberjack''"
definition ECSEventDefaultProvider :: string where "ECSEventDefaultProvider = ''flowpipeline''"
definition ECSEventKindEvent :: string where "ECSEventKindEvent = ''event''"
definition ECSEventCategoryNetwork :: string where "ECSEventCategoryNetwork = ''network''"
definition ECSEventTypeConnection :: string where "ECSEventTypeConnection = ''connection''"
definition ECSEventOutcomeSuccess :: string where "ECSEventOutcomeSuccess = ''success''"

definition networkType :: "32 word \<Rightarrow> string" where
  "networkType etype =
     (if etype = 2048 then ''ipv4'' else if etype = 34525 then ''ipv6'' else [])"

text \<open>
  \<open>ECSFromEnrichedFlow\<close> takes a pointer to a flow record and reads its fields right
  away, which panics for the \<open>nil\<close> pointer. For the network block it calls
  \<open>utils.IanaProtocolNumberToLowercaseName\<close>, which can panic; \<open>lowercaseNames\<close> is the
  array \<open>IanaProtocolNumberLowercaseNames\<close> as \<open>init\<close> has left it. \<open>now\<close> stands for
  \<open>time.Now().UnixMilli()\<close>. The subtraction is the wrapping \<open>uint64\<close> one, converted
  to \<open>int64\<close> bit for bit.
\<close>

definition ECSFromEnrichedFlow ::
  "string list \<Rightarrow> 64 word \<Rightarrow> EnrichedFlow option \<Rightarrow> go_panic + ElasticCommonSchema" where
  "ECSFromEnrichedFlow lowercaseNames now flow_ptr =
     (case flow_ptr of
        None \<Rightarrow> Inl NilPointerDereference
      | Some enrichedFlow \<Rightarrow>
          (let icmp = (if Proto enrichedFlow = 1 \<or> Proto enrichedFlow = 58
                       then Some \<lparr>ICMP_Type = IcmpType enrichedFlow,
                                  ICMP_Code = IcmpCode enrichedFlow\<rparr>
                       else None)
           in case IanaProtocolNumberToLowercaseName lowercaseNames (Proto enrichedFlow) of
                Inl p \<Rightarrow> Inl p
              | Inr transport \<Rightarrow>
                  Inr \<lparr>Timestamp = TimeFlowStartMs enrichedFlow,
                       Event = \<lparr>Kind = ECSEventKindEvent,
                                Category = [ECSEventCategoryNetwork],
                                Type = [ECSEventTypeConnection],
                                Outcome = ECSEventOutcomeSuccess,
                                Created = now,
                                Start = TimeFlowStartMs enrichedFlow,
                                End = TimeFlowEndMs enrichedFlow,
                                Duration = TimeFlowEndNs enrichedFlow
                                           - TimeFlowStartNs enrichedFlow,
                                Provider = ECSEventDefaultProvider,
                                Module = ECSEventDefaultModule\<rparr>,
                       ICMP = icmp,
                       Network = \<lparr>IanaNumber = Proto enrichedFlow,
                                  Transport = transport,
                                  Network_Bytes = Bytes enrichedFlow,
                                  Network_Packets = Packets enrichedFlow,
                                  Network_Type = networkType (Etype enrichedFlow)\<rparr>\<rparr>))"

subsection \<open>encoding/json on a flat struct\<close>

datatype json =
    JNumber int
  | JString string
  | JArray "json list"
  | JObject "(string \<times> json) list"

text \<open>
  A struct field as \<open>encoding/json\<close> sees it: the key taken from the tag (or the Go name
  when there is no tag), whether the key came from a tag, the \<open>omitempty\<close> option and the
  encoded value.
\<close>

record struct_field =
  go_name :: string
  json_name :: string
  tagged :: bool
  omitempty :: bool
  fvalue :: json

fun isEmptyValue :: "json \<Rightarrow> bool" where
  "isEmptyValue (JNumber n) = (n = 0)"
| "isEmptyValue (JString s) = (s = [])"
| "isEmptyValue (JArray xs) = (xs = [])"
| "isEmptyValue (JObject kvs) = False"

text \<open>
  The fields that share a key, tagged ones first; all fields of a flat struct have the
  same depth. \<open>dominantField\<close>: with two or more candidates of which the first two are
  both tagged or both untagged, the key is dropped without an error; otherwise the first
  candidate is encoded.
\<close>

definition candidates :: "struct_field list \<Rightarrow> string \<Rightarrow> struct_field list" where
  "candidates fs n =
     filter tagged (filter (\<lambda>f. json_name f = n) fs)
     @ filter (\<lambda>f. \<not> tagged f) (filter (\<lambda>f. json_name f = n) fs)"

fun dominantField :: "struct_field list \<Rightarrow> struct_field option" where
  "dominantField [] = None"
| "dominantField [f] = Some f"
| "dominantField (f1 # f2 # rest) = (if tagged f1 = tagged f2 then None else Some f1)"

definition typeFields :: "struct_field list \<Rightarrow> struct_field list" where
  "typeFields fs = filter (\<lambda>f. dominantField (candidates fs (json_name f)) = Some f) fs"

definition encode_struct :: "struct_field list \<Rightarrow> json" where
  "encode_struct fs =
     JObject (map (\<lambda>f. (json_name f, fvalue f))
                (filter (\<lambda>f. \<not> (omitempty f \<and> isEmptyValue (fvalue f))) (typeFields fs)))"

fun json_keys :: "json \<Rightarrow> string list" where
  "json_keys (JObject kvs) = map fst kvs"
| "json_keys (JNumber n) = []"
| "json_keys (JString s) = []"
| "json_keys (JArray xs) = []"

definition fld :: "string \<Rightarrow> string \<Rightarrow> json \<Rightarrow> struct_field" where
  "fld g n v = \<lparr>go_name = g, json_name = n, tagged = True, omitempty = True, fvalue = v\<rparr>"

text \<open>The struct tags of \<open>ECSEvent\<close>, field by field; every field has \<open>omitempty\<close>.\<close>

definition ECSEvent_fields :: "ECSEvent \<Rightarrow> struct_field list" where
  "ECSEvent_fields ev =
     [fld ''Kind'' ''kind'' (JString (Kind ev)),
      fld ''Category'' ''category'' (JArray (map JString (Category ev))),
      fld ''Type'' ''type'' (JArray (map JString (Type ev))),
      fld ''Outcome'' ''outcome'' (JString (Outcome ev)),
      fld ''Created'' ''created'' (JNumber (sint (Created ev))),
      fld ''Start'' ''end'' (JNumber (uint (Start ev))),
      fld ''End'' ''end'' (JNumber (uint (End ev))),
      fld ''Duration'' ''duration'' (JNumber (sint (Duration ev))),
      fld ''Provider'' ''provider'' (JString (Provider ev)),
      fld ''Module'' ''module'' (JString (Module ev))]"

definition Marshal_ECSEvent :: "ECSEvent \<Rightarrow> json" where
  "Marshal_ECSEvent ev = encode_struct (ECSEvent_fields ev)"

section \<open>The Lumberjack segment: Run\<close>

subsection \<open>What the goroutines do\<close>

text \<open>
  The calls a goroutine of the segment makes on the objects it shares with others (the
  channels, the two wait groups, the client, the timer, the logger), in the order it
  makes them. \<open>wg_Done\<close> is \<open>wg.Done()\<close> on the wait group of the pipeline, the shared
  barrier; the \<open>writerWG\<close> calls are on the wait group local to \<open>Run\<close>.
\<close>

datatype debug_msg = MsgFinalBatch | MsgFullBatch | MsgIncompleteBatch | MsgEmptyBatch

datatype action =
    timer_Stop
  | timer_Drain
  | timer_Reset int
  | client_Send "ElasticCommonSchema option list"
  | client_SendNoRetry "ElasticCommonSchema option list"
  | client_Close
  | Printf DebugPrintf debug_msg
  | log_Error
  | wg_Done
  | writerWG_Add
  | writerWG_Done
  | writerWG_Wait
  | go_writer string nat
  | send_LumberjackOut "EnrichedFlow option"
  | send_Out "EnrichedFlow option"
  | close_LumberjackOut
  | close_Out

subsection \<open>time.Timer\<close>

text \<open>
  A timer is armed or not, and its channel \<open>C\<close> (capacity one) holds an expiry or not.
  \<open>Stop\<close> reports whether it disarmed the timer and leaves the channel alone; \<open>Reset\<close>
  arms the timer and leaves the channel alone; when an armed timer expires it is disarmed
  and the expiry is put into the channel.
\<close>

record Timer =
  armed :: bool
  pending :: bool

definition Timer_expire :: "Timer \<Rightarrow> Timer" where
  "Timer_expire t = (if armed t then \<lparr>armed = False, pending = True\<rparr> else t)"

subsection \<open>A writer goroutine\<close>

text \<open>
  The local state of one writer: the batch buffer \<open>flowInterface\<close> (\<open>None\<close> is the
  \<open>nil\<close> interface value), the write index, the timer, the flag \<open>timerSet\<close> and the calls
  made so far.
\<close>

record writer =
  flowInterface :: "ElasticCommonSchema option list"
  idx :: nat
  timer :: Timer
  timerSet :: bool
  trace :: "action list"

datatype go_outcome =
    Running writer
  | Returned writer
  | Panicked go_panic writer
  | Deadlocked writer
  | NotEnabled

text \<open>
  A slice expression \<open>flowInterface[:idx]\<close> panics when \<open>idx\<close> exceeds the capacity.
  What one turn of the \<open>select\<close> loop can see. \<open>recv_flow\<close>: a pointer to a record
  arrives from \<open>LumberjackOut\<close> (the word is \<open>time.Now().UnixMilli()\<close> at that moment);
  \<open>recv_closed\<close>: \<open>LumberjackOut\<close> is closed and empty (the flag says whether
  \<open>SendNoRetry\<close> returns without an error); \<open>recv_timer\<close>: the case \<open><-timer.C\<close> is
  taken. \<open>timer_expires\<close> is not a case of the \<open>select\<close> but the passing of time: an
  armed timer expires.
\<close>

datatype writer_event =
    recv_flow "EnrichedFlow option" "64 word"
  | recv_closed bool
  | recv_timer
  | timer_expires

text \<open>
  The state before the loop: a buffer of \<open>BatchSize\<close> entries, and a timer that was
  created and stopped at once (it is taken not to expire between these two statements).
\<close>

definition writer_init :: "Lumberjack \<Rightarrow> writer" where
  "writer_init segment =
     \<lparr>flowInterface = replicate (nat (BatchSize segment)) None,
      idx = 0,
      timer = \<lparr>armed = False, pending = False\<rparr>,
      timerSet = False,
      trace = [timer_Stop]\<rparr>"

definition did :: "action list \<Rightarrow> writer \<Rightarrow> writer" where
  "did as w = w\<lparr>trace := trace w @ as\<rparr>"

text \<open>Calling \<open>segment.BatchDebugPrintf\<close>: a call of a \<open>nil\<close> function value panics.\<close>

definition call_BatchDebugPrintf :: "Lumberjack \<Rightarrow> debug_msg \<Rightarrow> writer \<Rightarrow> go_panic + writer" where
  "call_BatchDebugPrintf segment m w =
     (case BatchDebugPrintf segment of
        None \<Rightarrow> Inl NilFuncCall
      | Some p \<Rightarrow> Inr (did [Printf p m] w))"

text \<open>
  \<open>if timerSet { if !timer.Stop() { <-timer.C }; timerSet = false }\<close>. The receive blocks
  for ever when the timer is neither armed nor has an expiry in its channel: \<open>None\<close>.
\<close>

definition stop_and_drain :: "writer \<Rightarrow> writer option" where
  "stop_and_drain w =
     (if timerSet w then
        (let stopped = armed (timer w);
             w1 = did [timer_Stop] (w\<lparr>timer := (timer w)\<lparr>armed := False\<rparr>\<rparr>)
         in if \<not> stopped then
              (if pending (timer w1)
               then Some (did [timer_Drain]
                            (w1\<lparr>timer := (timer w1)\<lparr>pending := False\<rparr>, timerSet := False\<rparr>))
               else None)
            else Some (w1\<lparr>timerSet := False\<rparr>))
      else Some w)"

definition reset_if_unset :: "Lumberjack \<Rightarrow> writer \<Rightarrow> writer" where
  "reset_if_unset segment w =
     (if \<not> timerSet w
      then did [timer_Reset (BatchTimeout segment)]
             (w\<lparr>timerSet := True, timer := (timer w)\<lparr>armed := True\<rparr>\<rparr>)
      else w)"

text \<open>
  The case of a received record: \<open>flowInterface[idx] = ECSFromEnrichedFlow(flow)\<close>, and
  the batch is sent when it is full. The call on the right-hand side is made before the
  store, so a panic of the call comes first; the store is bounds-checked.
\<close>

definition writer_recv ::
  "string list \<Rightarrow> Lumberjack \<Rightarrow> EnrichedFlow option \<Rightarrow> 64 word \<Rightarrow> writer \<Rightarrow> go_outcome" where
  "writer_recv lowercaseNames segment flow now w =
     (case ECSFromEnrichedFlow lowercaseNames now flow of
        Inl p \<Rightarrow> Panicked p w
      | Inr doc \<Rightarrow>
          if \<not> idx w < length (flowInterface w) then Panicked IndexOutOfRange w
          else
            let w1 = w\<lparr>flowInterface := (flowInterface w)[idx w := Some doc],
                       idx := idx w + 1\<rparr>
            in if int (idx w1) = BatchSize segment then
                 (case stop_and_drain w1 of
                    None \<Rightarrow> Deadlocked w1
                  | Some w2 \<Rightarrow>
                      (let w3 = did [client_Send (flowInterface w2)] w2
                       in case call_BatchDebugPrintf segment MsgFullBatch w3 of
                            Inl p \<Rightarrow> Panicked p w3
                          | Inr w4 \<Rightarrow> Running (reset_if_unset segment (w4\<lparr>idx := 0\<rparr>))))
               else Running w1)"

text \<open>The case of the timer; it can be taken only when the channel holds an expiry.\<close>

definition writer_timer :: "Lumberjack \<Rightarrow> writer \<Rightarrow> go_outcome" where
  "writer_timer segment w =
     (if \<not> pending (timer w) then NotEnabled
      else
        let w0 = w\<lparr>timer := (timer w)\<lparr>pending := False\<rparr>\<rparr>;
            r = (if idx w0 > 0 then
                   (case call_BatchDebugPrintf segment MsgIncompleteBatch w0 of
                      Inl p \<Rightarrow> Inl p
                    | Inr w1 \<Rightarrow>
                        if length (flowInterface w1) < idx w1 then Inl SliceBoundsOutOfRange
                        else Inr ((did [client_Send (take (idx w1) (flowInterface w1))] w1)
                                    \<lparr>idx := 0\<rparr>))
                 else call_BatchDebugPrintf segment MsgEmptyBatch w0)
        in case r of
             Inl p \<Rightarrow> Panicked p w0
           | Inr w2 \<Rightarrow>
               Running (did [timer_Reset (BatchTimeout segment)]
                          (w2\<lparr>timer := (timer w2)\<lparr>armed := True\<rparr>, timerSet := True\<rparr>)))"

text \<open>
  The case of the closed queue: one \<open>SendNoRetry\<close> of the tail, \<open>wg.Done()\<close>, and the
  return, which runs the deferred calls in reverse order of their \<open>defer\<close> statements.
\<close>

definition writer_closed :: "Lumberjack \<Rightarrow> bool \<Rightarrow> writer \<Rightarrow> go_outcome" where
  "writer_closed segment ok w =
     (if length (flowInterface w) < idx w then Panicked SliceBoundsOutOfRange w
      else
        let w1 = did [client_SendNoRetry (take (idx w) (flowInterface w))] w;
            r = (if \<not> ok then Inr (did [log_Error] w1)
                 else call_BatchDebugPrintf segment MsgFinalBatch w1)
        in case r of
             Inl p \<Rightarrow> Panicked p w1
           | Inr w2 \<Rightarrow>
               Returned (did [wg_Done, timer_Stop, client_Close, writerWG_Done]
                           (w2\<lparr>timer := (timer w2)\<lparr>armed := False\<rparr>\<rparr>)))"

fun writer_step :: "string list \<Rightarrow> Lumberjack \<Rightarrow> writer_event \<Rightarrow> writer \<Rightarrow> go_outcome" where
  "writer_step lowercaseNames segment (recv_flow flow now) w =
     writer_recv lowercaseNames segment flow now w"
| "writer_step lowercaseNames segment (recv_closed ok) w = writer_closed segment ok w"
| "writer_step lowercaseNames segment recv_timer w = writer_timer segment w"
| "writer_step lowercaseNames segment timer_expires w =
     Running (w\<lparr>timer := Timer_expire (timer w)\<rparr>)"

text \<open>The loop \<open>for { select { ... } }\<close> along a list of events.\<close>

fun writer_run :: "string list \<Rightarrow> Lumberjack \<Rightarrow> writer_event list \<Rightarrow> writer \<Rightarrow> go_outcome" where
  "writer_run lowercaseNames segment [] w = Running w"
| "writer_run lowercaseNames segment (e # es) w =
     (case writer_step lowercaseNames segment e w of
        Running w' \<Rightarrow> writer_run lowercaseNames segment es w'
      | Returned w' \<Rightarrow> Returned w'
      | Panicked p w' \<Rightarrow> Panicked p w'
      | Deadlocked w' \<Rightarrow> Deadlocked w'
      | NotEnabled \<Rightarrow> NotEnabled)"

subsection \<open>The segment's own goroutine\<close>

text \<open>Starting the writers: one \<open>writerWG.Add(1)\<close> per server, \<open>Parallelism\<close> goroutines each.\<close>

definition start_writers :: "Lumberjack \<Rightarrow> action list" where
  "start_writers segment =
     concat (map (\<lambda>(server, options).
                    writerWG_Add # map (go_writer server) [0..<nat (Parallelism options)])
               (Servers segment))"

definition num_writers :: "Lumberjack \<Rightarrow> nat" where
  "num_writers segment = sum_list (map (\<lambda>(server, options). nat (Parallelism options)) (Servers segment))"

text \<open>\<open>for msg := range segment.In { ... }; close(segment.LumberjackOut)\<close>.\<close>

fun forward :: "EnrichedFlow option list \<Rightarrow> action list" where
  "forward [] = [close_LumberjackOut]"
| "forward (msg # rest) = send_LumberjackOut msg # send_Out msg # forward rest"

datatype run_status = RunReturned | RunBlocked | ProcessPanicked go_panic

record run_result =
  main_trace :: "action list"
  writers :: "go_outcome list"
  status :: run_status

fun the_panic :: "go_outcome \<Rightarrow> go_panic option" where
  "the_panic (Panicked p w) = Some p"
| "the_panic (Running w) = None"
| "the_panic (Returned w) = None"
| "the_panic (Deadlocked w) = None"
| "the_panic NotEnabled = None"

fun has_returned :: "go_outcome \<Rightarrow> bool" where
  "has_returned (Returned w) = True"
| "has_returned (Running w) = False"
| "has_returned (Panicked p w) = False"
| "has_returned (Deadlocked w) = False"
| "has_returned NotEnabled = False"

fun outcome_trace :: "go_outcome \<Rightarrow> action list" where
  "outcome_trace (Running w) = trace w"
| "outcome_trace (Returned w) = trace w"
| "outcome_trace (Panicked p w) = trace w"
| "outcome_trace (Deadlocked w) = trace w"
| "outcome_trace NotEnabled = []"

text \<open>
  \<open>Run\<close> for an input stream that is closed after the records \<open>input\<close>, with the events
  that the \<open>i\<close>-th writer sees given by \<open>sched i\<close>. The goroutines are summarised one by
  one: the result holds the calls of the segment's goroutine and the outcome of every
  writer. The deferred function closes \<open>Out\<close> and then waits on \<open>writerWG\<close>: a panic of a
  writer ends the process; a writer that returns calls \<open>writerWG.Done()\<close>, and more such
  calls than \<open>Add(1)\<close> calls make the counter negative, which panics; the wait ends when
  every \<open>Add\<close> has been matched, and only then the deferred function calls \<open>wg.Done()\<close>.
  The goroutine that logs the queue status never ends and nobody waits for it; it is left
  out. For a run that does not return, \<open>main_trace\<close> lists the calls that the segment's
  goroutine makes up to the wait if nothing cuts it short; where it really stands when
  the process ends is the matter of the next subsection.
\<close>

definition Lumberjack_Run ::
  "string list \<Rightarrow> Lumberjack \<Rightarrow> EnrichedFlow option list \<Rightarrow> (nat \<Rightarrow> writer_event list)
    \<Rightarrow> run_result" where
  "Lumberjack_Run lowercaseNames segment input sched =
     (let ws = map (\<lambda>i. writer_run lowercaseNames segment (sched i) (writer_init segment))
                 [0..<num_writers segment];
          before_wait = start_writers segment @ forward input @ [close_Out];
          adds = count_list (start_writers segment) writerWG_Add;
          dones = length (filter has_returned ws)
      in case List.map_filter the_panic ws of
           p # ps \<Rightarrow> \<lparr>main_trace = before_wait, writers = ws, status = ProcessPanicked p\<rparr>
         | [] \<Rightarrow>
             if adds < dones
             then \<lparr>main_trace = before_wait, writers = ws,
                   status = ProcessPanicked NegativeWaitGroupCounter\<rparr>
             else if dones = adds
             then \<lparr>main_trace = before_wait @ [writerWG_Wait, wg_Done], writers = ws,
                   status = RunReturned\<rparr>
             else \<lparr>main_trace = before_wait, writers = ws, status = RunBlocked\<rparr>)"

text \<open>How often a call occurs in a run, over all goroutines of the segment.\<close>

definition calls :: "run_result \<Rightarrow> action \<Rightarrow> nat" where
  "calls r a =
     count_list (main_trace r) a + sum_list (map (\<lambda>w. count_list (outcome_trace w) a) (writers r))"

subsection \<open>The goroutines side by side\<close>

text \<open>
  The summary above does not say how far the segment's goroutine has come when a writer
  ends the process. For that the goroutines are run side by side, one move at a time.
  The state of the process: where the segment's goroutine stands in its program, the
  records still to arrive on \<open>In\<close> before it is closed, the content of the buffered
  channel \<open>LumberjackOut\<close> and whether it is closed, the records put into it and the
  records sent on \<open>Out\<close> so far, the counter of \<open>writerWG\<close>, the calls of \<open>wg.Done()\<close>,
  the writers, and the panic that has ended the process, if any.
\<close>

datatype main_pc =
    at_range
  | at_send_LumberjackOut "EnrichedFlow option"
  | at_send_Out "EnrichedFlow option"
  | at_close_Out
  | at_writerWG_Wait
  | at_wg_Done
  | main_returned

record process =
  pc :: main_pc
  In_pending :: "EnrichedFlow option list"
  queue :: "EnrichedFlow option list"
  queue_closed :: bool
  enqueued :: "EnrichedFlow option list"
  forwarded :: "EnrichedFlow option list"
  closed_Out :: bool
  writerWG :: int
  barrier_Done :: nat
  goroutines :: "go_outcome list"
  crashed :: "go_panic option"

text \<open>
  A move of the scheduler: the segment's goroutine does its next operation, or a writer
  takes a case of its \<open>select\<close> (a value or the closing of \<open>LumberjackOut\<close>, with the time
  of day and the success of \<open>SendNoRetry\<close> as before, or the timer), or the timer of a
  writer expires.
\<close>

datatype select_case = takes_LumberjackOut "64 word" bool | takes_timer

datatype sched_step = main_moves | writer_moves nat select_case | time_passes nat

text \<open>The state when all writers have been started and the loop over \<open>In\<close> begins.\<close>

definition process_init :: "Lumberjack \<Rightarrow> EnrichedFlow option list \<Rightarrow> process" where
  "process_init segment input =
     \<lparr>pc = at_range, In_pending = input, queue = [], queue_closed = False,
      enqueued = [], forwarded = [], closed_Out = False,
      writerWG = int (length (Servers segment)), barrier_Done = 0,
      goroutines = replicate (num_writers segment) (Running (writer_init segment)),
      crashed = None\<rparr>"

text \<open>
  The next operation of the segment's goroutine; \<open>None\<close> when it cannot be done now: a
  send into the full queue, the wait for a positive counter, or nothing left to do.
\<close>

definition main_step :: "Lumberjack \<Rightarrow> process \<Rightarrow> process option" where
  "main_step segment p =
     (case pc p of
        at_range \<Rightarrow>
          (case In_pending p of
             msg # rest \<Rightarrow> Some (p\<lparr>pc := at_send_LumberjackOut msg, In_pending := rest\<rparr>)
           | [] \<Rightarrow> Some (p\<lparr>queue_closed := True, pc := at_close_Out\<rparr>))
      | at_send_LumberjackOut msg \<Rightarrow>
          if int (length (queue p)) < LumberjackOut_cap segment
          then Some (p\<lparr>queue := queue p @ [msg], enqueued := enqueued p @ [msg],
                       pc := at_send_Out msg\<rparr>)
          else None
      | at_send_Out msg \<Rightarrow> Some (p\<lparr>forwarded := forwarded p @ [msg], pc := at_range\<rparr>)
      | at_close_Out \<Rightarrow> Some (p\<lparr>closed_Out := True, pc := at_writerWG_Wait\<rparr>)
      | at_writerWG_Wait \<Rightarrow> if writerWG p = 0 then Some (p\<lparr>pc := at_wg_Done\<rparr>) else None
      | at_wg_Done \<Rightarrow> Some (p\<lparr>barrier_Done := barrier_Done p + 1, pc := main_returned\<rparr>)
      | main_returned \<Rightarrow> None)"

text \<open>
  What the turn of writer \<open>i\<close> means for the process: a panic ends it; a return has
  called \<open>wg.Done()\<close> and \<open>writerWG.Done()\<close>, and the latter panics when the counter drops
  below zero.
\<close>

definition settle :: "nat \<Rightarrow> go_outcome \<Rightarrow> process \<Rightarrow> process" where
  "settle i r p =
     (let p1 = p\<lparr>goroutines := (goroutines p)[i := r]\<rparr>
      in case r of
           Panicked q w \<Rightarrow> p1\<lparr>crashed := Some q\<rparr>
         | Returned w \<Rightarrow>
             p1\<lparr>barrier_Done := barrier_Done p + 1, writerWG := writerWG p - 1,
                crashed := (if writerWG p - 1 < 0 then Some NegativeWaitGroupCounter else None)\<rparr>
         | Running w \<Rightarrow> p1
         | Deadlocked w \<Rightarrow> p1
         | NotEnabled \<Rightarrow> p1)"

definition writer_move ::
  "string list \<Rightarrow> Lumberjack \<Rightarrow> nat \<Rightarrow> select_case \<Rightarrow> process \<Rightarrow> process option" where
  "writer_move lowercaseNames segment i c p =
     (if \<not> i < length (goroutines p) then None
      else case goroutines p ! i of
             Running w \<Rightarrow>
               (case c of
                  takes_LumberjackOut now ok \<Rightarrow>
                    (case queue p of
                       msg # rest \<Rightarrow>
                         Some (settle i (writer_step lowercaseNames segment (recv_flow msg now) w)
                                 (p\<lparr>queue := rest\<rparr>))
                     | [] \<Rightarrow>
                         if queue_closed p
                         then Some (settle i (writer_step lowercaseNames segment (recv_closed ok) w) p)
                         else None)
                | takes_timer \<Rightarrow>
                    (if pending (timer w)
                     then Some (settle i (writer_step lowercaseNames segment recv_timer w) p)
                     else None))
           | Returned w \<Rightarrow> None
           | Panicked q w \<Rightarrow> None
           | Deadlocked w \<Rightarrow> None
           | NotEnabled \<Rightarrow> None)"

definition timer_move :: "string list \<Rightarrow> Lumberjack \<Rightarrow> nat \<Rightarrow> process \<Rightarrow> process option" where
  "timer_move lowercaseNames segment i p =
     (if \<not> i < length (goroutines p) then None
      else case goroutines p ! i of
             Running w \<Rightarrow> Some (settle i (writer_step lowercaseNames segment timer_expires w) p)
           | Returned w \<Rightarrow> None
           | Panicked q w \<Rightarrow> None
           | Deadlocked w \<Rightarrow> None
           | NotEnabled \<Rightarrow> None)"

text \<open>One move; a process that a panic has ended makes none.\<close>

definition process_step ::
  "string list \<Rightarrow> Lumberjack \<Rightarrow> sched_step \<Rightarrow> process \<Rightarrow> process option" where
  "process_step lowercaseNames segment st p =
     (if crashed p \<noteq> None then None
      else case st of
             main_moves \<Rightarrow> main_step segment p
           | writer_moves i c \<Rightarrow> writer_move lowercaseNames segment i c p
           | time_passes i \<Rightarrow> timer_move lowercaseNames segment i p)"

text \<open>A list of moves; \<open>None\<close> when one of them is not possible where it stands.\<close>

fun Lumberjack_exec ::
  "string list \<Rightarrow> Lumberjack \<Rightarrow> sched_step list \<Rightarrow> process \<Rightarrow> process option" where
  "Lumberjack_exec lowercaseNames segment [] p = Some p"
| "Lumberjack_exec lowercaseNames segment (st # sts) p =
     (case process_step lowercaseNames segment st p of
        None \<Rightarrow> None
      | Some p' \<Rightarrow> Lumberjack_exec lowercaseNames segment sts p')"

section \<open>The goflow segment\<close>

record Goflow =
  Listen :: "URL list"
  Workers :: int
  PrometheusStatsAddress :: string

definition supported_scheme :: "string \<Rightarrow> bool" where
  "supported_scheme s = (s = ''netflow'' \<or> s = ''sflow'' \<or> s = ''nfl'')"

text \<open>
  The loop of \<open>Goflow.New\<close> over the listen addresses; \<open>None\<close> is the \<open>return nil\<close> of the
  loop body, taken at the first address that fails one of the three checks.
\<close>

fun listen_loop :: "(string \<Rightarrow> URL option) \<Rightarrow> string list \<Rightarrow> URL list \<Rightarrow> URL list option" where
  "listen_loop url_Parse [] listenAddressesSlice = Some listenAddressesSlice"
| "listen_loop url_Parse (listenAddress # rest) listenAddressesSlice =
     (case url_Parse listenAddress of
        None \<Rightarrow> None
      | Some listenAddrUrl \<Rightarrow>
          (case ParseUint (URL_Port listenAddrUrl) 64 of
             None \<Rightarrow> None
           | Some port \<Rightarrow>
               if supported_scheme (Scheme listenAddrUrl)
               then listen_loop url_Parse rest (listenAddressesSlice @ [listenAddrUrl])
               else None))"

definition listen_addresses :: "config \<Rightarrow> string list" where
  "listen_addresses config =
     Split (if cfg config ''listen'' \<noteq> [] then cfg config ''listen''
            else ''sflow://:6343,netflow://:2055'') CHR '',''"

text \<open>The \<open>workers\<close> option; \<open>None\<close> is the \<open>return nil\<close> for zero workers.\<close>

definition parse_workers :: "string \<Rightarrow> int option" where
  "parse_workers s =
     (if s \<noteq> [] then
        (case ParseUint s 32 of
           Some parsedWorkers \<Rightarrow> if parsedWorkers = 0 then None else Some parsedWorkers
         | None \<Rightarrow> Some 1)
      else Some 1)"

definition Goflow_New :: "(string \<Rightarrow> URL option) \<Rightarrow> config \<Rightarrow> Goflow option" where
  "Goflow_New url_Parse config =
     (case listen_loop url_Parse (listen_addresses config) [] of
        None \<Rightarrow> None
      | Some listenAddressesSlice \<Rightarrow>
          (case parse_workers (cfg config ''workers'') of
             None \<Rightarrow> None
           | Some workers \<Rightarrow>
               Some \<lparr>Listen = listenAddressesSlice, Workers = workers,
                     PrometheusStatsAddress = cfg config ''prometheus_stats_address''\<rparr>))"

text \<open>
  \<open>Goflow.Run\<close>. A channel carries pointers to flow records: \<open>None\<close> is the \<open>nil\<close>
  pointer, which is also what a receive from a closed channel yields. The events are the
  cases that the \<open>select\<close> takes; once \<open>goflow_in\<close> has been set to \<open>nil\<close> its case is
  never ready again, and an event for it is passed over.
\<close>

datatype goflow_event =
    goflow_in_recv "EnrichedFlow option"
  | goflow_in_closed
  | In_recv "EnrichedFlow option"
  | In_closed

record goflow_run =
  Out_sent :: "EnrichedFlow option list"
  Out_closed :: bool
  wg_Done_called :: bool

fun Goflow_loop :: "bool \<Rightarrow> goflow_event list \<Rightarrow> EnrichedFlow option list \<Rightarrow> goflow_run" where
  "Goflow_loop goflow_in_usable [] out =
     \<lparr>Out_sent = out, Out_closed = False, wg_Done_called = False\<rparr>"
| "Goflow_loop goflow_in_usable (goflow_in_recv msg # es) out =
     (if goflow_in_usable then Goflow_loop goflow_in_usable es (out @ [msg])
      else Goflow_loop goflow_in_usable es out)"
| "Goflow_loop goflow_in_usable (goflow_in_closed # es) out =
     (if goflow_in_usable then Goflow_loop False es (out @ [None])
      else Goflow_loop goflow_in_usable es out)"
| "Goflow_loop goflow_in_usable (In_recv msg # es) out =
     Goflow_loop goflow_in_usable es (out @ [msg])"
| "Goflow_loop goflow_in_usable (In_closed # es) out =
     \<lparr>Out_sent = out, Out_closed = True, wg_Done_called = True\<rparr>"

definition Goflow_Run :: "goflow_event list \<Rightarrow> goflow_run" where
  "Goflow_Run es = Goflow_loop True es []"

section \<open>Concrete inputs\<close>

text \<open>
  What \<open>url.Parse\<close> and \<open>time.ParseDuration\<close> return on the strings that the concrete
  configurations below use.
\<close>

definition url_Parse_sample :: "string \<Rightarrow> URL option" where
  "url_Parse_sample s =
     (if s = ''tcp://127.0.0.1:5044''
      then Some \<lparr>Scheme = ''tcp'', Host = ''127.0.0.1:5044'', Query = []\<rparr>
      else if s = ''netflow://:2055''
      then Some \<lparr>Scheme = ''netflow'', Host = '':2055'', Query = []\<rparr>
      else if s = ''sflow://:6343''
      then Some \<lparr>Scheme = ''sflow'', Host = '':6343'', Query = []\<rparr>
      else None)"

definition ParseDuration_sample :: "string \<Rightarrow> int option" where
  "ParseDuration_sample s =
     (if s = ''100ms'' then Some (100 * Millisecond)
      else if s = ''10ms'' then Some (10 * Millisecond)
      else if s = ''2m'' then Some (2 * Minute)
      else None)"

definition flow_sample :: EnrichedFlow where
  "flow_sample =
     \<lparr>Proto = 6, ProtoName = [], TimeFlowStartMs = 1000, TimeFlowEndMs = 2000,
      TimeFlowStartNs = 1000000000, TimeFlowEndNs = 2000000000,
      Bytes = 1500, Packets = 3, Etype = 2048, IcmpType = 0, IcmpCode = 0\<rparr>"

section \<open>Notions used to state the properties\<close>

text \<open>
  A listen address passes the three checks of the loop in \<open>Goflow.New\<close>: it parses as a URL,
  its port parses as an unsigned number and its scheme is one of the three known ones.
\<close>

definition listen_url_ok :: "(string \<Rightarrow> URL option) \<Rightarrow> string \<Rightarrow> bool" where
  "listen_url_ok url_Parse a =
     (case url_Parse a of
        None \<Rightarrow> False
      | Some u \<Rightarrow> ParseUint (URL_Port u) 64 \<noteq> None \<and> supported_scheme (Scheme u))"

definition workers_parse_to_zero :: "config \<Rightarrow> bool" where
  "workers_parse_to_zero config = (ParseUint (cfg config ''workers'') 32 = Some 0)"

text \<open>The records sent on \<open>Out\<close> and on \<open>LumberjackOut\<close>, in the order of the sends.\<close>

definition sent_on_Out :: "action list \<Rightarrow> EnrichedFlow option list" where
  "sent_on_Out tr = concat (map (\<lambda>a. case a of send_Out m \<Rightarrow> [m] | _ \<Rightarrow> []) tr)"

definition sent_on_LumberjackOut :: "action list \<Rightarrow> EnrichedFlow option list" where
  "sent_on_LumberjackOut tr =
     concat (map (\<lambda>a. case a of send_LumberjackOut m \<Rightarrow> [m] | _ \<Rightarrow> []) tr)"

text \<open>The calls that only a writer goroutine makes.\<close>

fun writer_call :: "action \<Rightarrow> bool" where
  "writer_call timer_Stop = True"
| "writer_call timer_Drain = True"
| "writer_call (timer_Reset d) = True"
| "writer_call (client_Send b) = True"
| "writer_call (client_SendNoRetry b) = True"
| "writer_call client_Close = True"
| "writer_call (Printf p m) = True"
| "writer_call log_Error = True"
| "writer_call wg_Done = True"
| "writer_call writerWG_Done = True"
| "writer_call writerWG_Add = False"
| "writer_call writerWG_Wait = False"
| "writer_call (go_writer server i) = False"
| "writer_call (send_LumberjackOut m) = False"
| "writer_call (send_Out m) = False"
| "writer_call close_LumberjackOut = False"
| "writer_call close_Out = False"

text \<open>
  The states of a writer that its loop can be in: the buffer has \<open>BatchSize\<close> entries, the
  write index is inside it (or the buffer has no entries at all), \<open>timerSet\<close> says that
  the timer is armed or has an unread expiry in its channel, never both, and the timer
  has been set only if \<open>BatchDebugPrintf\<close> is not \<open>nil\<close>.
\<close>

definition writer_inv :: "Lumberjack \<Rightarrow> writer \<Rightarrow> bool" where
  "writer_inv segment w =
     (length (flowInterface w) = nat (BatchSize segment)
      \<and> (idx w < length (flowInterface w) \<or> idx w = 0)
      \<and> timerSet w = (armed (timer w) \<or> pending (timer w))
      \<and> (armed (timer w) \<noteq> pending (timer w) \<or> \<not> armed (timer w))
      \<and> (BatchDebugPrintf segment \<noteq> None \<or> \<not> timerSet w))"

text \<open>
  An event that is a record whose document can be built, or the passing of time; and the
  number of records among the events.
\<close>

definition records_or_time :: "string list \<Rightarrow> writer_event \<Rightarrow> bool" where
  "records_or_time lowercaseNames e =
     (case e of
        recv_flow flow now \<Rightarrow>
          (case ECSFromEnrichedFlow lowercaseNames now flow of
             Inl p \<Rightarrow> False
           | Inr doc \<Rightarrow> True)
      | recv_closed ok \<Rightarrow> False
      | recv_timer \<Rightarrow> False
      | timer_expires \<Rightarrow> True)"

fun num_records :: "writer_event list \<Rightarrow> nat" where
  "num_records [] = 0"
| "num_records (recv_flow flow now # es) = Suc (num_records es)"
| "num_records (recv_closed ok # es) = num_records es"
| "num_records (recv_timer # es) = num_records es"
| "num_records (timer_expires # es) = num_records es"

text \<open>Configurations for the concrete runs.\<close>

definition config_sample :: config where
  "config_sample =
     [''servers'' \<mapsto> ''tcp://127.0.0.1:5044'', ''batchsize'' \<mapsto> ''2'',
      ''batchtimeout'' \<mapsto> ''100ms'', ''batchdebug'' \<mapsto> ''false'']"

definition segment_sample :: Lumberjack where
  "segment_sample =
     \<lparr>Servers = [(''127.0.0.1:5044'',
                   \<lparr>UseTLS = False, VerifyCertificate = False, CompressionLevel = 0,
                    Parallelism = 1\<rparr>)],
      BatchSize = 2, BatchTimeout = 100 * Millisecond, BatchDebugPrintf = Some NoDebugPrintf,
      QueueStatusInterval = 0, ReconnectWait = Second, LumberjackOut_cap = 65536\<rparr>"

text \<open>
  Three rows of the IANA table and the array of lower-case names that \<open>init\<close> builds
  from them.
\<close>

definition csv_sample :: "string list list" where
  "csv_sample =
     [[''6'', ''TCP'', ''Transmission Control''],
      [''68'', '''', ''any distributed file system''],
      [''146-252'', '''', ''Unassigned'']]"

definition lowercase_sample :: "string list" where
  "lowercase_sample =
     IanaProtocolNumberNames0[6 := ''tcp'', 68 := ''any distributed file system'']"

text \<open>The document of the sample flow, built at time 5.\<close>

definition doc_sample :: ElasticCommonSchema where
  "doc_sample =
     \<lparr>Timestamp = 1000,
      Event = \<lparr>Kind = ''event'', Category = [''network''], Type = [''connection''],
               Outcome = ''success'', Created = 5, Start = 1000, End = 2000,
               Duration = 1000000000, Provider = ''flowpipeline'', Module = ''lumberjack''\<rparr>,
      ICMP = None,
      Network = \<lparr>IanaNumber = 6, Transport = ''tcp'', Network_Bytes = 1500,
                 Network_Packets = 3, Network_Type = ''ipv4''\<rparr>\<rparr>"

text \<open>
  The sample configuration without the \<open>batchdebug\<close> option and with a batch size of 1,
  and the segment that \<open>New\<close> makes of it from the registered prototype.
\<close>

definition config_plain :: config where
  "config_plain = [''servers'' \<mapsto> ''tcp://127.0.0.1:5044'', ''batchsize'' \<mapsto> ''1'']"

definition segment_plain :: Lumberjack where
  "segment_plain =
     \<lparr>Servers = [(''127.0.0.1:5044'',
                   \<lparr>UseTLS = False, VerifyCertificate = False, CompressionLevel = 0,
                    Parallelism = 1\<rparr>)],
      BatchSize = 1, BatchTimeout = 5 * Second, BatchDebugPrintf = None,
      QueueStatusInterval = 0, ReconnectWait = Second, LumberjackOut_cap = 65536\<rparr>"

section \<open>Properties of the IANA table and protomap\<close>

lemma iana_init_row_length:
  "iana_init_row names row = Inr names' \<Longrightarrow> length names' = length names"
  by (auto simp: iana_init_row_def split: if_splits option.splits)

lemma iana_init_rows_length:
  "iana_init_rows names rows = Inr names' \<Longrightarrow> length names' = length names"
proof (induction rows arbitrary: names)
  case Nil
  then show ?case by simp
next
  case (Cons row rows)
  then show ?case
    by (auto split: sum.splits dest: iana_init_row_length)
qed

lemma iana_init_length:
  "iana_init csvRows = Inr names \<Longrightarrow> length names = 256"
  by (auto simp: iana_init_def IanaProtocolNumberNames0_def largestIanaProtoNameIndex_def
      dest: iana_init_rows_length)

lemma IanaProtocolNumberToName_above:
  "256 < unat n \<Longrightarrow> IanaProtocolNumberToName names n = Inr []"
  by (simp add: IanaProtocolNumberToName_def largestIanaProtoNameIndex_def)

lemma IanaProtocolNumberToName_below:
  "length names = 256 \<Longrightarrow> unat n < 256 \<Longrightarrow>
   IanaProtocolNumberToName names n = Inr (names ! unat n)"
  by (simp add: IanaProtocolNumberToName_def largestIanaProtoNameIndex_def)

lemma IanaProtocolNumberToName_256:
  "length names = 256 \<Longrightarrow> IanaProtocolNumberToName names 256 = Inl IndexOutOfRange"
  by (simp add: IanaProtocolNumberToName_def largestIanaProtoNameIndex_def)

text \<open>
  Claim C3 (fails on the code at protocol number 256). The claim: protomap sets
  \<open>ProtoName\<close> to the table entry or to "UNKNOWN", every protocol number above 255 gives
  "UNKNOWN", and 0, 255 and 256 are handled without failure. The code: the guard of
  \<open>IanaProtocolNumberToName\<close> lets 256 through to an array of 256 entries, so for every
  table that \<open>init\<close> can build, a record with protocol number 256 panics with an index
  out of range and nothing is sent for it.
\<close>

theorem protomap_proto_256_panics:
  "iana_init csvRows = Inr names \<Longrightarrow>
   Protomap_Run names (msg\<lparr>Proto := 256\<rparr> # rest) = ([], Some IndexOutOfRange)"
  by (simp add: IanaProtocolNumberToName_256 iana_init_length)

theorem protomap_proto_256_panics_witness:
  "iana_init [[''6'', ''TCP'', ''Transmission Control''],
              [''68'', '''', ''any distributed file system''],
              [''146-252'', '''', ''Unassigned'']]
     = Inr (IanaProtocolNumberNames0[6 := ''TCP'', 68 := ''any distributed file system''])
   \<and> Protomap_Run (IanaProtocolNumberNames0[6 := ''TCP'', 68 := ''any distributed file system''])
        [\<lparr>Proto = 6, ProtoName = [], TimeFlowStartMs = 0, TimeFlowEndMs = 0,
          TimeFlowStartNs = 0, TimeFlowEndNs = 0, Bytes = 0, Packets = 0, Etype = 0,
          IcmpType = 0, IcmpCode = 0\<rparr>\<lparr>Proto := 256\<rparr>]
     = ([], Some IndexOutOfRange)"
proof -
  have init: "iana_init [[''6'', ''TCP'', ''Transmission Control''],
              [''68'', '''', ''any distributed file system''],
              [''146-252'', '''', ''Unassigned'']]
     = Inr (IanaProtocolNumberNames0[6 := ''TCP'', 68 := ''any distributed file system''])"
    by (simp add: iana_init_def iana_init_row_def Atoi_def is_digit_def digit_val_def
        IanaProtocolNumberNames0_def largestIanaProtoNameIndex_def)
  show ?thesis
    by (intro conjI init protomap_proto_256_panics [OF init])
qed

text \<open>
  Away from 256 the segment does what the claim says: a number below 256 gets its table
  entry, or "UNKNOWN" when the entry is empty, and a number above 256 gets "UNKNOWN".
\<close>

lemma protomap_other_numbers:
  assumes "iana_init csvRows = Inr names" and "unat (Proto msg) \<noteq> 256"
  shows "Protomap_Run names [msg] =
           ([msg\<lparr>ProtoName :=
                (if unat (Proto msg) < 256 \<and> names ! unat (Proto msg) \<noteq> []
                 then names ! unat (Proto msg) else ''UNKNOWN'')\<rparr>], None)"
proof (cases "unat (Proto msg) < 256")
  case True
  with assms show ?thesis
    by (simp add: IanaProtocolNumberToName_below iana_init_length)
next
  case False
  with assms have "256 < unat (Proto msg)" by simp
  then show ?thesis
    by (simp add: IanaProtocolNumberToName_above)
qed

section \<open>Properties of the ECS document\<close>

text \<open>
  Claim C4 (fails on the code for every flow). The claim: the ECS document has
  \<open>event.start\<close> and \<open>event.end\<close> as two distinct JSON fields, next to \<open>event.duration\<close>.
  The code: the fields \<open>Start\<close> and \<open>End\<close> of \<open>ECSEvent\<close> both carry the tag \<open>end\<close>; two
  tagged fields of one struct with the same key cancel each other in \<open>encoding/json\<close>, so
  the encoded event has neither a key \<open>start\<close> nor a key \<open>end\<close>, whatever the flow.
\<close>

theorem ecs_event_start_end_keys_dropped:
  "''start'' \<notin> set (json_keys (Marshal_ECSEvent ev)) \<and>
   ''end'' \<notin> set (json_keys (Marshal_ECSEvent ev))"
  by (simp add: Marshal_ECSEvent_def encode_struct_def typeFields_def candidates_def
      ECSEvent_fields_def fld_def)

text \<open>
  Building the document: the sample flow gives the sample document; the \<open>nil\<close> pointer
  panics; a flow record panics exactly through the table lookup, and with a table of
  256 entries protocol number 256 does.
\<close>

lemma iana_init_lowercase_sample: "iana_init_lowercase csv_sample = Inr lowercase_sample"
  by (simp add: iana_init_lowercase_def iana_init_row_lowercase_def csv_sample_def
      lowercase_sample_def Atoi_def is_digit_def digit_val_def ToLower_def ToLower_char_def
      IanaProtocolNumberNames0_def largestIanaProtoNameIndex_def)

lemma lowercase_sample_6: "lowercase_sample ! 6 = ''tcp'' \<and> length lowercase_sample = 256"
  by (simp add: lowercase_sample_def IanaProtocolNumberNames0_def largestIanaProtoNameIndex_def)

lemma ECS_sample: "ECSFromEnrichedFlow lowercase_sample 5 (Some flow_sample) = Inr doc_sample"
  by (simp add: ECSFromEnrichedFlow_def IanaProtocolNumberToLowercaseName_def
      largestIanaProtoNameIndex_def lowercase_sample_6 flow_sample_def doc_sample_def
      networkType_def ECSEventKindEvent_def ECSEventCategoryNetwork_def
      ECSEventTypeConnection_def ECSEventOutcomeSuccess_def ECSEventDefaultProvider_def
      ECSEventDefaultModule_def)

lemma ECS_nil: "ECSFromEnrichedFlow lowercaseNames now None = Inl NilPointerDereference"
  by (simp add: ECSFromEnrichedFlow_def)

lemma ECS_panic_kind:
  "ECSFromEnrichedFlow lowercaseNames now (Some f) = Inl p \<Longrightarrow> p = IndexOutOfRange"
  by (auto simp: ECSFromEnrichedFlow_def IanaProtocolNumberToLowercaseName_def Let_def
      split: if_splits sum.splits)

lemma ECS_proto_256:
  "length lowercaseNames = 256 \<Longrightarrow>
   ECSFromEnrichedFlow lowercaseNames now (Some (f\<lparr>Proto := 256\<rparr>)) = Inl IndexOutOfRange"
  by (simp add: ECSFromEnrichedFlow_def IanaProtocolNumberToLowercaseName_def
      largestIanaProtoNameIndex_def)

text \<open>The event block of the sample document, encoded.\<close>

lemma ecs_event_sample:
  "Marshal_ECSEvent (Event doc_sample) =
     JObject [(''kind'', JString ''event''),
              (''category'', JArray [JString ''network'']),
              (''type'', JArray [JString ''connection'']),
              (''outcome'', JString ''success''),
              (''created'', JNumber 5),
              (''duration'', JNumber 1000000000),
              (''provider'', JString ''flowpipeline''),
              (''module'', JString ''lumberjack'')]"
  by (simp add: Marshal_ECSEvent_def encode_struct_def typeFields_def candidates_def
      ECSEvent_fields_def fld_def doc_sample_def)

text \<open>The duration is the wrapping difference of the two nanosecond time stamps.\<close>

lemma ecs_duration:
  "ECSFromEnrichedFlow lowercaseNames now (Some f) = Inr doc \<Longrightarrow>
   Duration (Event doc) = TimeFlowEndNs f - TimeFlowStartNs f"
  by (auto simp: ECSFromEnrichedFlow_def Let_def split: sum.splits)

section \<open>Properties of Lumberjack.New\<close>

lemma bindE_Inr: "bindE m f = Inr y \<longleftrightarrow> (\<exists>x. m = Inr x \<and> f x = Inr y)"
  by (cases m) (simp_all add: bindE_def)

lemma New_fields:
  assumes "Lumberjack_New url_Parse ParseDuration segment config = Inr seg"
  shows "\<exists>dc. parse_compression 0 (cfg config ''compression'') = Inr dc \<and>
           parse_servers url_Parse dc (map TrimSpace (Split (cfg config ''servers'') CHR '','')) []
             = Inr (Servers seg)"
    and "parse_batchsize (cfg config ''batchsize'') = Inr (BatchSize seg)"
    and "parse_batchtimeout ParseDuration (cfg config ''batchtimeout'') = Inr (BatchTimeout seg)"
    and "parse_batchdebug (BatchDebugPrintf segment) (cfg config ''batchdebug'')
           = Inr (BatchDebugPrintf seg)"
  using assms unfolding Lumberjack_New_def bindE_Inr by auto

lemmas New_eval_defs = Lumberjack_New_def config_sample_def segment_sample_def cfg_def bindE_def
      parse_compression_def parse_server_def parse_scheme_def parse_count_def query_Get_def
      parse_batchsize_def parse_batchtimeout_def parse_batchdebug_def parse_duration_option_def
      parse_queuesize_def url_Parse_sample_def ParseDuration_sample_def Lumberjack_zero_def
      TrimSpace_def is_space_def strip_underscores_def Atoi_def is_digit_def digit_val_def
      ParseBool_def defaultQueueSize_def defaultReconnectWait_def defaultQueueStatusInterval_def
      minimalBatchTimeout_def defaultTimeout_def Minute_def Second_def Millisecond_def Let_def

lemma New_sample: "Lumberjack_New url_Parse_sample ParseDuration_sample Lumberjack_zero config_sample = Inr segment_sample"
  by (simp add: Lumberjack_New_def config_sample_def segment_sample_def cfg_def bindE_def
      parse_compression_def parse_server_def parse_scheme_def parse_count_def query_Get_def
      parse_batchsize_def parse_batchtimeout_def parse_batchdebug_def parse_duration_option_def
      parse_queuesize_def url_Parse_sample_def ParseDuration_sample_def Lumberjack_zero_def
      TrimSpace_def is_space_def strip_underscores_def Atoi_def is_digit_def digit_val_def
      ParseBool_def defaultQueueSize_def defaultReconnectWait_def defaultQueueStatusInterval_def
      minimalBatchTimeout_def defaultTimeout_def Minute_def Second_def Millisecond_def Let_def)

text \<open>
  Claim C7. For a \<open>batchtimeout\<close> value that parses as the duration \<open>d\<close>, the segment that
  \<open>New\<close> returns has the default timeout of 5 s when \<open>d\<close> is below 50 ms or above 60 s,
  and \<open>d\<close> itself otherwise.
\<close>

theorem lumberjack_batchtimeout_clamped:
  assumes "Lumberjack_New url_Parse ParseDuration segment config = Inr seg"
    and "cfg config ''batchtimeout'' \<noteq> []"
    and "ParseDuration (cfg config ''batchtimeout'') = Some d"
  shows "BatchTimeout seg =
           (if d < 50 * Millisecond \<or> d > 60 * Second then 5 * Second else d)"
  using New_fields(3) [OF assms(1)] assms(2,3)
  by (auto simp: parse_batchtimeout_def bindE_def Let_def minimalBatchTimeout_def
      defaultTimeout_def Minute_def Second_def Millisecond_def split: if_splits)

text \<open>The timeouts 100 ms (kept), 10 ms and 2 min (both replaced by 5 s).\<close>

theorem lumberjack_batchtimeout_clamped_witness:
  "Lumberjack_New url_Parse_sample ParseDuration_sample Lumberjack_zero config_sample
     = Inr segment_sample
   \<and> cfg config_sample ''batchtimeout'' \<noteq> []
   \<and> ParseDuration_sample (cfg config_sample ''batchtimeout'') = Some (100 * Millisecond)
   \<and> BatchTimeout segment_sample = 100 * Millisecond
   \<and> Lumberjack_New url_Parse_sample ParseDuration_sample Lumberjack_zero
       (config_sample(''batchtimeout'' \<mapsto> ''10ms''))
     = Inr (segment_sample\<lparr>BatchTimeout := 5 * Second\<rparr>)
   \<and> ParseDuration_sample ''10ms'' = Some (10 * Millisecond)
   \<and> Lumberjack_New url_Parse_sample ParseDuration_sample Lumberjack_zero
       (config_sample(''batchtimeout'' \<mapsto> ''2m''))
     = Inr (segment_sample\<lparr>BatchTimeout := 5 * Second\<rparr>)
   \<and> ParseDuration_sample ''2m'' = Some (2 * Minute)"
proof -
  have new: "Lumberjack_New url_Parse_sample ParseDuration_sample Lumberjack_zero config_sample
     = Inr segment_sample"
    by (simp add: New_eval_defs)
  have c: "cfg config_sample ''batchtimeout'' \<noteq> []"
    and p: "ParseDuration_sample (cfg config_sample ''batchtimeout'') = Some (100 * Millisecond)"
    by (simp_all add: config_sample_def cfg_def ParseDuration_sample_def)
  have bt: "BatchTimeout segment_sample = 100 * Millisecond"
    using lumberjack_batchtimeout_clamped [OF new c p]
    by (simp add: Millisecond_def Second_def)
  have short: "Lumberjack_New url_Parse_sample ParseDuration_sample Lumberjack_zero
       (config_sample(''batchtimeout'' \<mapsto> ''10ms''))
     = Inr (segment_sample\<lparr>BatchTimeout := 5 * Second\<rparr>)"
    by (simp add: New_eval_defs)
  have long: "Lumberjack_New url_Parse_sample ParseDuration_sample Lumberjack_zero
       (config_sample(''batchtimeout'' \<mapsto> ''2m''))
     = Inr (segment_sample\<lparr>BatchTimeout := 5 * Second\<rparr>)"
    by (simp add: New_eval_defs)
  have "ParseDuration_sample ''10ms'' = Some (10 * Millisecond)"
    "ParseDuration_sample ''2m'' = Some (2 * Minute)"
    by (simp_all add: ParseDuration_sample_def)
  with new c p bt short long show ?thesis by simp
qed

lemma map_store_not_Nil: "map_store k v xs \<noteq> []"
  by (cases xs) (auto split: if_splits)

lemma parse_servers_not_Nil:
  "parse_servers up dc raws acc = Inr servers \<Longrightarrow> raws \<noteq> [] \<or> acc \<noteq> [] \<Longrightarrow> servers \<noteq> []"
proof (induction raws arbitrary: acc)
  case Nil
  then show ?case by simp
next
  case (Cons raw raws)
  from Cons.prems(1) obtain host opts where
    "parse_servers up dc raws (map_store host opts acc) = Inr servers"
    by (auto simp: bindE_Inr)
  from Cons.IH [OF this] show ?case by (simp add: map_store_not_Nil)
qed

lemma Split_not_Nil: "Split s c \<noteq> []"
  by (induction s) (auto split: list.splits)

lemma New_has_server:
  assumes "Lumberjack_New url_Parse ParseDuration segment config = Inr seg"
  shows "Servers seg \<noteq> []"
proof -
  from New_fields(1) [OF assms] obtain dc where
    "parse_servers url_Parse dc (map TrimSpace (Split (cfg config ''servers'') CHR '','')) []
       = Inr (Servers seg)" by blast
  then show ?thesis
    by (rule parse_servers_not_Nil) (simp add: Split_not_Nil)
qed

section \<open>Properties of a writer goroutine\<close>

lemmas writer_defs = writer_recv_def writer_timer_def writer_closed_def stop_and_drain_def
  reset_if_unset_def call_BatchDebugPrintf_def did_def Timer_expire_def Let_def

lemmas eval_defs = Lumberjack_Run_def num_writers_def start_writers_def segment_sample_def
  writer_init_def writer_recv_def writer_timer_def writer_closed_def stop_and_drain_def
  reset_if_unset_def call_BatchDebugPrintf_def did_def Timer_expire_def Let_def
  List.map_filter_def calls_def ECS_sample

subsection \<open>The states of the loop\<close>

lemma writer_inv_init: "writer_inv seg (writer_init seg)"
  by (simp add: writer_inv_def writer_init_def)

lemma writer_step_inv:
  assumes "writer_step lower seg e w = Running w'" and "writer_inv seg w"
  shows "writer_inv seg w'"
proof (cases e)
  case (recv_flow f now)
  with assms show ?thesis
    by (auto simp: writer_defs writer_inv_def split: if_splits option.splits sum.splits)
next
  case (recv_closed ok)
  with assms show ?thesis
    by (auto simp: writer_defs split: if_splits sum.splits)
next
  case recv_timer
  with assms show ?thesis
    by (auto simp: writer_defs writer_inv_def split: if_splits option.splits sum.splits)
next
  case timer_expires
  with assms show ?thesis
    by (auto simp: writer_defs writer_inv_def split: if_splits)
qed

lemma writer_run_inv:
  "writer_run lower seg es w = Running w' \<Longrightarrow> writer_inv seg w \<Longrightarrow> writer_inv seg w'"
proof (induction es arbitrary: w)
  case Nil
  then show ?case by simp
next
  case (Cons e es)
  then show ?case
    by (auto split: go_outcome.splits dest: writer_step_inv)
qed

lemma writer_reachable_inv:
  "writer_run lower seg es (writer_init seg) = Running w \<Longrightarrow> writer_inv seg w"
  by (rule writer_run_inv [OF _ writer_inv_init])

text \<open>
  Claim C5. In every state that the loop of a writer reaches: when a record fills the
  batch while \<open>timerSet\<close> holds, the timer is stopped, its channel is drained if it held an
  expiry, then the batch is sent and only then the timer is reset, so that afterwards the
  timer is armed and its channel is empty; a record whose document cannot be built makes
  the writer panic before it touches the buffer or the timer; and when the case of the
  timer is taken with an empty buffer, the writer calls \<open>BatchDebugPrintf\<close> (which is not
  \<open>nil\<close> in such a state) and resets the timer, and does nothing else.
\<close>

theorem lumberjack_stop_and_drain:
  assumes "writer_run lower seg es (writer_init seg) = Running w"
  shows "(timerSet w \<and> int (idx w) + 1 = BatchSize seg
          \<and> ECSFromEnrichedFlow lower now flow = Inr doc \<longrightarrow>
            (\<exists>p. BatchDebugPrintf seg = Some p
               \<and> writer_step lower seg (recv_flow flow now) w =
                   Running (w\<lparr>flowInterface := (flowInterface w)[idx w := Some doc],
                              idx := 0,
                              timer := \<lparr>armed = True, pending = False\<rparr>,
                              timerSet := True,
                              trace := trace w @ timer_Stop
                                # (if pending (timer w) then [timer_Drain] else [])
                                @ [client_Send ((flowInterface w)[idx w := Some doc]),
                                   Printf p MsgFullBatch,
                                   timer_Reset (BatchTimeout seg)]\<rparr>)))
         \<and> (ECSFromEnrichedFlow lower now flow = Inl q \<longrightarrow>
              writer_step lower seg (recv_flow flow now) w = Panicked q w)
         \<and> (pending (timer w) \<and> idx w = 0 \<longrightarrow>
            (\<exists>p. BatchDebugPrintf seg = Some p
               \<and> writer_step lower seg recv_timer w =
                   Running (w\<lparr>timer := \<lparr>armed = True, pending = False\<rparr>,
                              timerSet := True,
                              trace := trace w
                                @ [Printf p MsgEmptyBatch, timer_Reset (BatchTimeout seg)]\<rparr>)))"
proof -
  have inv: "writer_inv seg w" by (rule writer_reachable_inv [OF assms])
  have full: "\<exists>p. BatchDebugPrintf seg = Some p
               \<and> writer_step lower seg (recv_flow flow now) w =
                   Running (w\<lparr>flowInterface := (flowInterface w)[idx w := Some doc],
                              idx := 0,
                              timer := \<lparr>armed = True, pending = False\<rparr>,
                              timerSet := True,
                              trace := trace w @ timer_Stop
                                # (if pending (timer w) then [timer_Drain] else [])
                                @ [client_Send ((flowInterface w)[idx w := Some doc]),
                                   Printf p MsgFullBatch,
                                   timer_Reset (BatchTimeout seg)]\<rparr>)"
    if ts: "timerSet w" and ix: "int (idx w) + 1 = BatchSize seg"
      and doc: "ECSFromEnrichedFlow lower now flow = Inr doc"
  proof -
    from inv ts obtain p where p: "BatchDebugPrintf seg = Some p"
      by (auto simp: writer_inv_def)
    from inv ix have len: "idx w < length (flowInterface w)"
      by (auto simp: writer_inv_def)
    from inv ts have tm: "armed (timer w) \<noteq> pending (timer w)"
      by (auto simp: writer_inv_def)
    show ?thesis
    proof (cases "pending (timer w)")
      case True
      with tm have "\<not> armed (timer w)" by simp
      with True p len ts ix doc show ?thesis
        by (simp add: writer_defs)
    next
      case False
      with tm have "armed (timer w)" by simp
      with False p len ts ix doc show ?thesis
        by (simp add: writer_defs)
    qed
  qed
  have panic: "writer_step lower seg (recv_flow flow now) w = Panicked q w"
    if "ECSFromEnrichedFlow lower now flow = Inl q"
    using that by (simp add: writer_recv_def)
  have empty: "\<exists>p. BatchDebugPrintf seg = Some p
               \<and> writer_step lower seg recv_timer w =
                   Running (w\<lparr>timer := \<lparr>armed = True, pending = False\<rparr>,
                              timerSet := True,
                              trace := trace w
                                @ [Printf p MsgEmptyBatch, timer_Reset (BatchTimeout seg)]\<rparr>)"
    if pe: "pending (timer w)" and ix: "idx w = 0"
  proof -
    from inv pe obtain p where p: "BatchDebugPrintf seg = Some p"
      by (auto simp: writer_inv_def)
    from p pe ix show ?thesis
      by (simp add: writer_defs)
  qed
  from full panic empty show ?thesis by blast
qed

text \<open>With an empty channel the case of the timer cannot be taken.\<close>

lemma no_phantom_expiry:
  "\<not> pending (timer w) \<Longrightarrow> writer_step lower seg recv_timer w = NotEnabled"
  by (simp add: writer_timer_def)

text \<open>
  Two runs with a batch size of 2: in the first the timer expires while the second batch
  is being filled, and the record that fills it removes the expiry; in the second the
  timer expires on an empty buffer.
\<close>

theorem lumberjack_stop_and_drain_witness:
  "(\<exists>w. writer_run lowercase_sample segment_sample
            [recv_flow (Some flow_sample) 5, recv_flow (Some flow_sample) 5,
             recv_flow (Some flow_sample) 5, timer_expires]
            (writer_init segment_sample) = Running w
        \<and> timerSet w \<and> pending (timer w) \<and> int (idx w) + 1 = BatchSize segment_sample
        \<and> ECSFromEnrichedFlow lowercase_sample 5 (Some flow_sample) = Inr doc_sample
        \<and> (\<exists>w'. writer_step lowercase_sample segment_sample (recv_flow (Some flow_sample) 5) w
                  = Running w'
              \<and> timer w' = \<lparr>armed = True, pending = False\<rparr>
              \<and> writer_step lowercase_sample segment_sample recv_timer w' = NotEnabled))
   \<and> (\<exists>w. writer_run lowercase_sample segment_sample
            [recv_flow (Some flow_sample) 5, recv_flow (Some flow_sample) 5, timer_expires]
            (writer_init segment_sample) = Running w
        \<and> pending (timer w) \<and> idx w = 0
        \<and> writer_step lowercase_sample segment_sample recv_timer w =
            Running (w\<lparr>timer := \<lparr>armed = True, pending = False\<rparr>, timerSet := True,
                       trace := trace w @ [Printf NoDebugPrintf MsgEmptyBatch,
                                           timer_Reset (100 * Millisecond)]\<rparr>))
   \<and> (\<exists>w. writer_run lowercase_sample segment_sample
            [recv_flow (Some flow_sample) 5] (writer_init segment_sample) = Running w
        \<and> ECSFromEnrichedFlow lowercase_sample 5 None = Inl NilPointerDereference
        \<and> writer_step lowercase_sample segment_sample (recv_flow None 5) w
            = Panicked NilPointerDereference w)"
proof -
  obtain w1 where w1: "writer_run lowercase_sample segment_sample
            [recv_flow (Some flow_sample) 5, recv_flow (Some flow_sample) 5,
             recv_flow (Some flow_sample) 5, timer_expires]
            (writer_init segment_sample) = Running w1"
     "timerSet w1" "pending (timer w1)" "int (idx w1) + 1 = BatchSize segment_sample"
    by (simp add: eval_defs)
  obtain w2 where w2: "writer_run lowercase_sample segment_sample
            [recv_flow (Some flow_sample) 5, recv_flow (Some flow_sample) 5, timer_expires]
            (writer_init segment_sample) = Running w2"
     "pending (timer w2)" "idx w2 = 0"
    by (simp add: eval_defs)
  obtain w3 where w3: "writer_run lowercase_sample segment_sample
            [recv_flow (Some flow_sample) 5] (writer_init segment_sample) = Running w3"
    by (simp add: eval_defs)
  have printf: "BatchDebugPrintf segment_sample = Some NoDebugPrintf"
     and bt: "BatchTimeout segment_sample = 100 * Millisecond"
    by (simp_all add: segment_sample_def)
  from lumberjack_stop_and_drain
         [OF w1(1), where flow = "Some flow_sample" and now = 5 and doc = doc_sample]
       w1(2,4) ECS_sample
  obtain w1' where s1:
      "writer_step lowercase_sample segment_sample (recv_flow (Some flow_sample) 5) w1 = Running w1'"
      "timer w1' = \<lparr>armed = True, pending = False\<rparr>"
    by auto
  from s1(2) have "writer_step lowercase_sample segment_sample recv_timer w1' = NotEnabled"
    by (simp add: writer_timer_def)
  with w1 s1 ECS_sample have A: "\<exists>w. writer_run lowercase_sample segment_sample
            [recv_flow (Some flow_sample) 5, recv_flow (Some flow_sample) 5,
             recv_flow (Some flow_sample) 5, timer_expires]
            (writer_init segment_sample) = Running w
        \<and> timerSet w \<and> pending (timer w) \<and> int (idx w) + 1 = BatchSize segment_sample
        \<and> ECSFromEnrichedFlow lowercase_sample 5 (Some flow_sample) = Inr doc_sample
        \<and> (\<exists>w'. writer_step lowercase_sample segment_sample (recv_flow (Some flow_sample) 5) w
                  = Running w'
              \<and> timer w' = \<lparr>armed = True, pending = False\<rparr>
              \<and> writer_step lowercase_sample segment_sample recv_timer w' = NotEnabled)"
    by blast
  from lumberjack_stop_and_drain [OF w2(1)] w2(2,3) printf bt
  have "writer_step lowercase_sample segment_sample recv_timer w2 =
            Running (w2\<lparr>timer := \<lparr>armed = True, pending = False\<rparr>, timerSet := True,
                       trace := trace w2 @ [Printf NoDebugPrintf MsgEmptyBatch,
                                           timer_Reset (100 * Millisecond)]\<rparr>)"
    by auto
  with w2 have B: "\<exists>w. writer_run lowercase_sample segment_sample
            [recv_flow (Some flow_sample) 5, recv_flow (Some flow_sample) 5, timer_expires]
            (writer_init segment_sample) = Running w
        \<and> pending (timer w) \<and> idx w = 0
        \<and> writer_step lowercase_sample segment_sample recv_timer w =
            Running (w\<lparr>timer := \<lparr>armed = True, pending = False\<rparr>, timerSet := True,
                       trace := trace w @ [Printf NoDebugPrintf MsgEmptyBatch,
                                           timer_Reset (100 * Millisecond)]\<rparr>)"
    by blast
  from lumberjack_stop_and_drain
         [OF w3, where flow = None and now = 5 and q = NilPointerDereference] ECS_nil
  have "writer_step lowercase_sample segment_sample (recv_flow None 5) w3
            = Panicked NilPointerDereference w3"
    by blast
  with w3 ECS_nil have C: "\<exists>w. writer_run lowercase_sample segment_sample
            [recv_flow (Some flow_sample) 5] (writer_init segment_sample) = Running w
        \<and> ECSFromEnrichedFlow lowercase_sample 5 None = Inl NilPointerDereference
        \<and> writer_step lowercase_sample segment_sample (recv_flow None 5) w
            = Panicked NilPointerDereference w"
    by blast
  from A B C show ?thesis by blast
qed

text \<open>
  Where the timer is reset. A record that does not fill the batch is stored and nothing
  else happens, whether the buffer was empty or not. The timer is reset in two places
  only, always to \<open>BatchTimeout\<close>: at the end of the turn in which a record fills the
  batch, and at the end of the turn that handles an expiry.
\<close>

lemma writer_timer_reset_points:
  "(idx w < length (flowInterface w) \<and> int (idx w) + 1 \<noteq> BatchSize seg
     \<and> ECSFromEnrichedFlow lower now flow = Inr doc \<longrightarrow>
      writer_step lower seg (recv_flow flow now) w =
        Running (w\<lparr>flowInterface := (flowInterface w)[idx w := Some doc],
                   idx := idx w + 1\<rparr>))
   \<and> (writer_step lower seg e w = Running w'
        \<and> count_list (trace w') (timer_Reset d) \<noteq> count_list (trace w) (timer_Reset d) \<longrightarrow>
      d = BatchTimeout seg
      \<and> (e = recv_timer \<or> (\<exists>f n. e = recv_flow f n \<and> int (idx w) + 1 = BatchSize seg)))
   \<and> (writer_step lower seg e w = Running w'
        \<and> (e = recv_timer \<or> (\<exists>f n. e = recv_flow f n \<and> int (idx w) + 1 = BatchSize seg)) \<longrightarrow>
      armed (timer w') \<and> timerSet w' \<and> last (trace w') = timer_Reset (BatchTimeout seg))"
proof (intro conjI impI)
  assume "idx w < length (flowInterface w) \<and> int (idx w) + 1 \<noteq> BatchSize seg
     \<and> ECSFromEnrichedFlow lower now flow = Inr doc"
  then show "writer_step lower seg (recv_flow flow now) w =
        Running (w\<lparr>flowInterface := (flowInterface w)[idx w := Some doc],
                   idx := idx w + 1\<rparr>)"
    by (simp add: writer_recv_def)
next
  assume a: "writer_step lower seg e w = Running w'
        \<and> count_list (trace w') (timer_Reset d) \<noteq> count_list (trace w) (timer_Reset d)"
  then show "d = BatchTimeout seg"
    by (cases e) (auto simp: writer_defs split: if_splits option.splits sum.splits)
  from a show "e = recv_timer \<or> (\<exists>f n. e = recv_flow f n \<and> int (idx w) + 1 = BatchSize seg)"
    by (cases e) (auto simp: writer_defs split: if_splits option.splits sum.splits)
next
  assume a: "writer_step lower seg e w = Running w'
        \<and> (e = recv_timer \<or> (\<exists>f n. e = recv_flow f n \<and> int (idx w) + 1 = BatchSize seg))"
  then show "armed (timer w')"
    by (cases e) (auto simp: writer_defs split: if_splits option.splits sum.splits)
  from a show "timerSet w'"
    by (cases e) (auto simp: writer_defs split: if_splits option.splits sum.splits)
  from a show "last (trace w') = timer_Reset (BatchTimeout seg)"
    by (cases e) (auto simp: writer_defs split: if_splits option.splits sum.splits)
qed

text \<open>
  As long as a writer has not filled its first batch, records and the passing of time
  leave its timer as it was created: stopped, with an empty channel.
\<close>

lemma partial_batch_quiet:
  assumes "list_all (records_or_time lower) es"
    and "int (idx w0 + num_records es) < BatchSize seg"
    and "length (flowInterface w0) = nat (BatchSize seg)"
    and "timer w0 = \<lparr>armed = False, pending = False\<rparr>"
    and "\<not> timerSet w0"
  shows "\<exists>w. writer_run lower seg es w0 = Running w
           \<and> idx w = idx w0 + num_records es
           \<and> timer w = \<lparr>armed = False, pending = False\<rparr>
           \<and> \<not> timerSet w
           \<and> trace w = trace w0"
  using assms
proof (induction es arbitrary: w0)
  case Nil
  then show ?case by simp
next
  case (Cons e es)
  show ?case
  proof (cases e)
    case (recv_flow flow now)
    with Cons.prems(1) obtain doc where doc: "ECSFromEnrichedFlow lower now flow = Inr doc"
      by (auto simp: records_or_time_def split: sum.splits)
    let ?w1 = "w0\<lparr>flowInterface := (flowInterface w0)[idx w0 := Some doc], idx := idx w0 + 1\<rparr>"
    from Cons.prems(2,3) recv_flow
    have bounds: "idx w0 < length (flowInterface w0)" "int (idx w0) + 1 \<noteq> BatchSize seg"
      by auto
    with doc have step: "writer_step lower seg e w0 = Running ?w1"
      by (simp add: recv_flow writer_recv_def)
    from Cons.prems recv_flow
    have "\<exists>w. writer_run lower seg es ?w1 = Running w
           \<and> idx w = idx ?w1 + num_records es
           \<and> timer w = \<lparr>armed = False, pending = False\<rparr>
           \<and> \<not> timerSet w
           \<and> trace w = trace ?w1"
      by (intro Cons.IH) auto
    with step recv_flow show ?thesis by auto
  next
    case (recv_closed ok)
    with Cons.prems(1) show ?thesis by (simp add: records_or_time_def)
  next
    case recv_timer
    with Cons.prems(1) show ?thesis by (simp add: records_or_time_def)
  next
    case timer_expires
    let ?w1 = "w0\<lparr>timer := Timer_expire (timer w0)\<rparr>"
    from Cons.prems(4) have same: "?w1 = w0"
      by (simp add: Timer_expire_def)
    from Cons.prems timer_expires
    have "\<exists>w. writer_run lower seg es w0 = Running w
           \<and> idx w = idx w0 + num_records es
           \<and> timer w = \<lparr>armed = False, pending = False\<rparr>
           \<and> \<not> timerSet w
           \<and> trace w = trace w0"
      by (intro Cons.IH) auto
    with same timer_expires show ?thesis by auto
  qed
qed

text \<open>
  Claim C2 (fails on the code). The claim: whenever a record is appended to an empty
  buffer the timer is started or reset to \<open>batchtimeout\<close>, so that a partly filled batch
  waits no longer than that; the comment of the package says the same of \<open>batchtimeout\<close>.
  The code: a writer creates its timer stopped and resets it for the first time after its
  first full batch. Before that, with fewer records than \<open>BatchSize\<close> received, however
  much time passes between and after them, the records stay in the buffer, the timer is
  neither armed nor expired, no call has been made on it or on the client, and the case
  of the timer cannot be taken: the batch waits until more records come or the queue is
  closed.
\<close>

theorem lumberjack_partial_batch_waits_unbounded:
  assumes "list_all (records_or_time lower) es"
    and "int (num_records es) < BatchSize seg"
  shows "\<exists>w. writer_run lower seg es (writer_init seg) = Running w
           \<and> idx w = num_records es
           \<and> timer w = \<lparr>armed = False, pending = False\<rparr>
           \<and> \<not> timerSet w
           \<and> trace w = [timer_Stop]
           \<and> writer_step lower seg recv_timer w = NotEnabled"
proof -
  from partial_batch_quiet [of lower es "writer_init seg" seg] assms
  obtain w where w: "writer_run lower seg es (writer_init seg) = Running w"
      "idx w = num_records es" "timer w = \<lparr>armed = False, pending = False\<rparr>"
      "\<not> timerSet w" "trace w = [timer_Stop]"
    by (auto simp: writer_init_def)
  from w(3) have "writer_step lower seg recv_timer w = NotEnabled"
    by (simp add: writer_timer_def)
  with w show ?thesis by blast
qed

text \<open>
  A batch size of 2 and a timeout of 100 ms: one record, and then time passes.
\<close>

theorem lumberjack_partial_batch_waits_unbounded_witness:
  "list_all (records_or_time lowercase_sample)
     [recv_flow (Some flow_sample) 5, timer_expires, timer_expires]
   \<and> int (num_records [recv_flow (Some flow_sample) 5, timer_expires, timer_expires])
       < BatchSize segment_sample
   \<and> (\<exists>w. writer_run lowercase_sample segment_sample
             [recv_flow (Some flow_sample) 5, timer_expires, timer_expires]
             (writer_init segment_sample) = Running w
         \<and> idx w = 1
         \<and> timer w = \<lparr>armed = False, pending = False\<rparr>
         \<and> trace w = [timer_Stop]
         \<and> writer_step lowercase_sample segment_sample recv_timer w = NotEnabled)"
proof -
  have h1: "list_all (records_or_time lowercase_sample)
     [recv_flow (Some flow_sample) 5, timer_expires, timer_expires]"
    by (simp add: records_or_time_def ECS_sample)
  have h2: "int (num_records [recv_flow (Some flow_sample) 5, timer_expires, timer_expires])
       < BatchSize segment_sample"
    by (simp add: segment_sample_def)
  from lumberjack_partial_batch_waits_unbounded [OF h1 h2] h1 h2
  show ?thesis by auto
qed

text \<open>
  Claim C10 (fails on the code for \<open>batchsize\<close> 0). The claim: for every configuration that
  \<open>New\<close> accepts, \<open>batchsize\<close> 0 included, the store of a record into the batch buffer is
  within bounds. The code: \<open>New\<close> replaces only negative batch sizes, so \<open>batchsize\<close> 0
  gives a buffer without entries, and the first record that a writer receives makes it
  panic with an index out of range.
\<close>

theorem lumberjack_batchsize_zero_panics:
  assumes "Lumberjack_New url_Parse ParseDuration segment config = Inr seg"
    and "cfg config ''batchsize'' = ''0''"
  shows "BatchSize seg = 0
         \<and> writer_step lower seg (recv_flow (Some flow) now) (writer_init seg)
             = Panicked IndexOutOfRange (writer_init seg)"
proof -
  have "parse_batchsize ''0'' = Inr 0"
    by (simp add: parse_batchsize_def bindE_def strip_underscores_def Atoi_def is_digit_def
        digit_val_def)
  with New_fields(2) [OF assms(1)] assms(2) have zero: "BatchSize seg = 0" by simp
  have "writer_step lower seg (recv_flow (Some flow) now) (writer_init seg)
             = Panicked IndexOutOfRange (writer_init seg)"
  proof (cases "ECSFromEnrichedFlow lower now (Some flow)")
    case (Inl p)
    with ECS_panic_kind [OF Inl] show ?thesis
      by (simp add: writer_recv_def)
  next
    case (Inr doc)
    with zero show ?thesis
      by (simp add: writer_recv_def writer_init_def)
  qed
  with zero show ?thesis by simp
qed

text \<open>The configuration of the sample with \<open>batchsize\<close> 0, and a run with one record.\<close>

theorem lumberjack_batchsize_zero_panics_witness:
  "Lumberjack_New url_Parse_sample ParseDuration_sample Lumberjack_zero
       (config_sample(''batchsize'' \<mapsto> ''0''))
     = Inr (segment_sample\<lparr>BatchSize := 0\<rparr>)
   \<and> cfg (config_sample(''batchsize'' \<mapsto> ''0'')) ''batchsize'' = ''0''
   \<and> writer_step lowercase_sample (segment_sample\<lparr>BatchSize := 0\<rparr>)
        (recv_flow (Some flow_sample) 5) (writer_init (segment_sample\<lparr>BatchSize := 0\<rparr>))
      = Panicked IndexOutOfRange (writer_init (segment_sample\<lparr>BatchSize := 0\<rparr>))
   \<and> status (Lumberjack_Run lowercase_sample (segment_sample\<lparr>BatchSize := 0\<rparr>)
               [Some flow_sample] (\<lambda>i. [recv_flow (Some flow_sample) 5, recv_closed True]))
      = ProcessPanicked IndexOutOfRange"
proof -
  have new: "Lumberjack_New url_Parse_sample ParseDuration_sample Lumberjack_zero
       (config_sample(''batchsize'' \<mapsto> ''0''))
     = Inr (segment_sample\<lparr>BatchSize := 0\<rparr>)"
    by (simp add: New_eval_defs)
  have c: "cfg (config_sample(''batchsize'' \<mapsto> ''0'')) ''batchsize'' = ''0''"
    by (simp add: cfg_def)
  have run: "status (Lumberjack_Run lowercase_sample (segment_sample\<lparr>BatchSize := 0\<rparr>)
               [Some flow_sample] (\<lambda>i. [recv_flow (Some flow_sample) 5, recv_closed True]))
      = ProcessPanicked IndexOutOfRange"
    by (simp add: eval_defs upt_rec)
  from lumberjack_batchsize_zero_panics
         [OF new c, where flow = flow_sample and now = 5 and lower = lowercase_sample]
       new c run
  show ?thesis by simp
qed

text \<open>For a batch size of at least 1 every store is within bounds.\<close>

lemma writer_store_in_bounds:
  assumes "writer_run lower seg es (writer_init seg) = Running w" and "1 \<le> BatchSize seg"
  shows "idx w < length (flowInterface w)" and "int (idx w) < BatchSize seg"
  using writer_reachable_inv [OF assms(1)] assms(2)
  by (auto simp: writer_inv_def)

subsection \<open>The calls of a writer\<close>

lemma writer_step_trace:
  assumes "writer_step lower seg e w = r" and "r \<noteq> NotEnabled"
  shows "\<exists>new. outcome_trace r = trace w @ new \<and> list_all writer_call new
           \<and> count_list new wg_Done = (if has_returned r then 1 else 0)"
proof (cases e)
  case (recv_flow f now)
  with assms show ?thesis
    by (auto simp: writer_defs split: if_splits option.splits sum.splits)
next
  case (recv_closed ok)
  with assms show ?thesis
    by (auto simp: writer_defs split: if_splits sum.splits option.splits)
next
  case recv_timer
  with assms show ?thesis
    by (auto simp: writer_defs split: if_splits option.splits sum.splits)
next
  case timer_expires
  with assms show ?thesis
    by (auto simp: writer_defs split: if_splits)
qed

lemma writer_step_Running_not_returned:
  "writer_step lower seg e w = Running w' \<Longrightarrow>
   \<exists>new. trace w' = trace w @ new \<and> list_all writer_call new \<and> count_list new wg_Done = 0"
  using writer_step_trace [of lower seg e w "Running w'"] by simp

lemma writer_run_trace:
  "writer_run lower seg es w = r \<Longrightarrow> r \<noteq> NotEnabled \<Longrightarrow>
   \<exists>new. outcome_trace r = trace w @ new \<and> list_all writer_call new
     \<and> count_list new wg_Done = (if has_returned r then 1 else 0)"
proof (induction es arbitrary: w)
  case Nil
  then show ?case by auto
next
  case (Cons e es)
  show ?case
  proof (cases "writer_step lower seg e w")
    case (Running w')
    from writer_step_Running_not_returned [OF Running]
    obtain new1 where n1: "trace w' = trace w @ new1" "list_all writer_call new1"
      "count_list new1 wg_Done = 0" by blast
    from Cons.prems Running have "writer_run lower seg es w' = r" by simp
    from Cons.IH [OF this Cons.prems(2)]
    obtain new2 where n2: "outcome_trace r = trace w' @ new2" "list_all writer_call new2"
      "count_list new2 wg_Done = (if has_returned r then 1 else 0)" by blast
    have "outcome_trace r = trace w @ (new1 @ new2)" using n1 n2 by simp
    moreover have "list_all writer_call (new1 @ new2)" using n1 n2 by simp
    moreover have "count_list (new1 @ new2) wg_Done = (if has_returned r then 1 else 0)"
      using n1 n2 by simp
    ultimately show ?thesis by blast
  next
    case (Returned w')
    with Cons.prems have "r = writer_step lower seg e w" by simp
    then show ?thesis using writer_step_trace [of lower seg e w r] Cons.prems(2) by simp
  next
    case (Panicked p w')
    with Cons.prems have "r = writer_step lower seg e w" by simp
    then show ?thesis using writer_step_trace [of lower seg e w r] Cons.prems(2) by simp
  next
    case (Deadlocked w')
    with Cons.prems have "r = writer_step lower seg e w" by simp
    then show ?thesis using writer_step_trace [of lower seg e w r] Cons.prems(2) by simp
  next
    case NotEnabled
    with Cons.prems show ?thesis by simp
  qed
qed

lemma writer_calls_wg_Done:
  "count_list (outcome_trace (writer_run lower seg es (writer_init seg))) wg_Done =
     (if has_returned (writer_run lower seg es (writer_init seg)) then 1 else 0)"
proof (cases "writer_run lower seg es (writer_init seg) = NotEnabled")
  case True
  then show ?thesis by simp
next
  case False
  from writer_run_trace [OF refl False]
  obtain new where "outcome_trace (writer_run lower seg es (writer_init seg)) = trace (writer_init seg) @ new"
    "count_list new wg_Done = (if has_returned (writer_run lower seg es (writer_init seg)) then 1 else 0)"
    by blast
  then show ?thesis by (simp add: writer_init_def)
qed

lemma writer_calls_only_writer_calls:
  "list_all writer_call (outcome_trace (writer_run lower seg es (writer_init seg)))"
proof (cases "writer_run lower seg es (writer_init seg) = NotEnabled")
  case True
  then show ?thesis by simp
next
  case False
  from writer_run_trace [OF refl False]
  obtain new where "outcome_trace (writer_run lower seg es (writer_init seg)) = trace (writer_init seg) @ new"
    "list_all writer_call new"
    by blast
  then show ?thesis by (simp add: writer_init_def)
qed

lemma writer_never_close_Out:
  "count_list (outcome_trace (writer_run lower seg es (writer_init seg))) close_Out = 0"
proof (rule count_notin, rule notI)
  assume "close_Out \<in> set (outcome_trace (writer_run lower seg es (writer_init seg)))"
  with writer_calls_only_writer_calls [of lower seg es] have "writer_call close_Out"
    unfolding list_all_iff by blast
  then show False by simp
qed

lemma only_writer_calls_no_sends:
  assumes "list_all writer_call tr"
  shows "sent_on_Out tr = [] \<and> sent_on_LumberjackOut tr = []"
proof -
  have "\<forall>a \<in> set tr. (case a of send_Out m \<Rightarrow> [m] | _ \<Rightarrow> []) = []
          \<and> (case a of send_LumberjackOut m \<Rightarrow> [m] | _ \<Rightarrow> []) = []"
  proof
    fix a assume "a \<in> set tr"
    with assms have "writer_call a" by (simp add: list_all_iff)
    then show "(case a of send_Out m \<Rightarrow> [m] | _ \<Rightarrow> []) = []
          \<and> (case a of send_LumberjackOut m \<Rightarrow> [m] | _ \<Rightarrow> []) = []"
      by (cases a) simp_all
  qed
  then show ?thesis
    by (simp add: sent_on_Out_def sent_on_LumberjackOut_def)
qed

section \<open>Properties of Lumberjack.Run\<close>

lemma count_start_writers_wg_Done: "count_list (start_writers seg) wg_Done = 0"
  by (rule count_notin) (auto simp: start_writers_def)

lemma count_start_writers_close_Out: "count_list (start_writers seg) close_Out = 0"
  by (rule count_notin) (auto simp: start_writers_def)

lemma count_writerWG_Add:
  "count_list (concat (map (\<lambda>(server, options).
       writerWG_Add # map (go_writer server) [0..<nat (Parallelism options)]) xs)) writerWG_Add
   = length xs"
proof (induction xs)
  case Nil
  then show ?case by simp
next
  case (Cons x xs)
  obtain s opts where x: "x = (s, opts)" by (cases x)
  have "count_list (map (go_writer s) [0..<nat (Parallelism opts)]) writerWG_Add = 0"
    by (rule count_notin) auto
  with Cons x show ?case by simp
qed

lemma count_start_writers_Add: "count_list (start_writers seg) writerWG_Add = length (Servers seg)"
  by (simp add: start_writers_def count_writerWG_Add)

lemma count_forward: "count_list (forward input) wg_Done = 0 \<and> count_list (forward input) close_Out = 0"
  by (induction input) simp_all

lemma sum_list_indicator:
  "sum_list (map (\<lambda>x. if P x then (1::nat) else 0) xs) = length (filter P xs)"
  by (induction xs) simp_all

lemma Run_writers:
  "writers (Lumberjack_Run lower seg input sched) =
     map (\<lambda>i. writer_run lower seg (sched i) (writer_init seg)) [0..<num_writers seg]"
  by (simp add: Lumberjack_Run_def Let_def split: list.splits)

lemma Run_returned_main_trace:
  "status (Lumberjack_Run lower seg input sched) = RunReturned \<Longrightarrow>
   main_trace (Lumberjack_Run lower seg input sched) =
     start_writers seg @ forward input @ [close_Out, writerWG_Wait, wg_Done]"
  by (auto simp: Lumberjack_Run_def Let_def split: list.splits if_splits)

lemma Run_returned_dones:
  "status (Lumberjack_Run lower seg input sched) = RunReturned \<Longrightarrow>
   length (filter has_returned (writers (Lumberjack_Run lower seg input sched))) = length (Servers seg)"
  by (auto simp: Lumberjack_Run_def Let_def count_start_writers_Add split: list.splits if_splits)

lemma writers_wg_Done:
  "sum_list (map (\<lambda>w. count_list (outcome_trace w) wg_Done) (writers (Lumberjack_Run lower seg input sched)))
   = length (filter has_returned (writers (Lumberjack_Run lower seg input sched)))"
  unfolding Run_writers
  by (simp add: comp_def writer_calls_wg_Done sum_list_indicator)

lemma writers_close_Out:
  "sum_list (map (\<lambda>w. count_list (outcome_trace w) close_Out) (writers (Lumberjack_Run lower seg input sched))) = 0"
  unfolding Run_writers by (simp add: comp_def writer_never_close_Out)

lemma run_sample_status:
  "status (Lumberjack_Run lowercase_sample segment_sample [Some flow_sample] (\<lambda>i. [recv_flow (Some flow_sample) 5, recv_closed True]))
     = RunReturned"
  by (simp add: eval_defs upt_rec)

text \<open>
  Claim C1 (fails on the code for every accepted configuration). The claim: \<open>Run\<close> returns
  having closed \<open>Out\<close> once and having called \<open>Done\<close> on the shared barrier once. The
  code: every writer that sees the queue closed calls \<open>wg.Done()\<close> on the shared barrier
  itself, before it returns, and the deferred function of \<open>Run\<close> calls it once more. A
  configuration that \<open>New\<close> accepts has at least one server, so whenever \<open>Run\<close> returns,
  \<open>Out\<close> has been closed once but the barrier has been signalled at least twice: once
  by \<open>Run\<close> and once for every \<open>writerWG.Add\<close> that a returning writer matched.
\<close>

theorem lumberjack_run_barrier_done:
  assumes "Lumberjack_New url_Parse ParseDuration segment config = Inr seg"
    and "status (Lumberjack_Run lower seg input sched) = RunReturned"
  shows "calls (Lumberjack_Run lower seg input sched) close_Out = 1
         \<and> calls (Lumberjack_Run lower seg input sched) wg_Done = 1 + length (Servers seg)
         \<and> 2 \<le> calls (Lumberjack_Run lower seg input sched) wg_Done"
proof -
  let ?r = "Lumberjack_Run lower seg input sched"
  have mt: "main_trace ?r = start_writers seg @ forward input @ [close_Out, writerWG_Wait, wg_Done]"
    by (rule Run_returned_main_trace [OF assms(2)])
  have c1: "calls ?r close_Out = 1"
    by (simp add: calls_def mt writers_close_Out count_start_writers_close_Out count_forward)
  have c2: "calls ?r wg_Done = 1 + length (Servers seg)"
    by (simp add: calls_def mt writers_wg_Done Run_returned_dones [OF assms(2)]
        count_start_writers_wg_Done count_forward)
  have "1 \<le> length (Servers seg)"
    using New_has_server [OF assms(1)] by (cases "Servers seg") simp_all
  with c1 c2 show ?thesis by simp
qed

text \<open>One server, one writer, one record: two calls of \<open>wg.Done()\<close>.\<close>

theorem lumberjack_run_barrier_done_witness:
  "Lumberjack_New url_Parse_sample ParseDuration_sample Lumberjack_zero config_sample
     = Inr segment_sample
   \<and> status (Lumberjack_Run lowercase_sample segment_sample [Some flow_sample]
               (\<lambda>i. [recv_flow (Some flow_sample) 5, recv_closed True])) = RunReturned
   \<and> calls (Lumberjack_Run lowercase_sample segment_sample [Some flow_sample]
              (\<lambda>i. [recv_flow (Some flow_sample) 5, recv_closed True])) close_Out = 1
   \<and> calls (Lumberjack_Run lowercase_sample segment_sample [Some flow_sample]
              (\<lambda>i. [recv_flow (Some flow_sample) 5, recv_closed True])) wg_Done = 2"
  using lumberjack_run_barrier_done [OF New_sample run_sample_status] New_sample run_sample_status
  by (simp add: segment_sample_def)

lemma sent_on_Out_append [simp]: "sent_on_Out (xs @ ys) = sent_on_Out xs @ sent_on_Out ys"
  by (simp add: sent_on_Out_def)

lemma sent_on_LumberjackOut_append [simp]:
  "sent_on_LumberjackOut (xs @ ys) = sent_on_LumberjackOut xs @ sent_on_LumberjackOut ys"
  by (simp add: sent_on_LumberjackOut_def)

lemma sent_forward: "sent_on_Out (forward input) = input \<and> sent_on_LumberjackOut (forward input) = input"
  by (induction input) (simp_all add: sent_on_Out_def sent_on_LumberjackOut_def)

lemma sent_start_writers:
  "sent_on_Out (start_writers seg) = [] \<and> sent_on_LumberjackOut (start_writers seg) = []"
proof -
  have "\<forall>a \<in> set (start_writers seg). a = writerWG_Add \<or> (\<exists>s i. a = go_writer s i)"
    by (auto simp: start_writers_def)
  then have "\<forall>a \<in> set (start_writers seg).
      (case a of send_Out m \<Rightarrow> [m] | _ \<Rightarrow> []) = [] \<and> (case a of send_LumberjackOut m \<Rightarrow> [m] | _ \<Rightarrow> []) = []"
    by auto
  then show ?thesis
    by (simp add: sent_on_Out_def sent_on_LumberjackOut_def)
qed

text \<open>
  In a run of the segment that returns, the records sent on \<open>Out\<close> are the records of the
  input, each once and in the order of the input, and so are the records put into the
  queue \<open>LumberjackOut\<close>; the writers send nothing on either channel.
\<close>

lemma returning_run_forwards_input:
  assumes "status (Lumberjack_Run lower seg input sched) = RunReturned"
  shows "sent_on_Out (main_trace (Lumberjack_Run lower seg input sched)) = input
         \<and> sent_on_LumberjackOut (main_trace (Lumberjack_Run lower seg input sched)) = input
         \<and> list_all (\<lambda>w. sent_on_Out (outcome_trace w) = []
                         \<and> sent_on_LumberjackOut (outcome_trace w) = [])
             (writers (Lumberjack_Run lower seg input sched))"
proof -
  have "list_all (\<lambda>w. sent_on_Out (outcome_trace w) = []
                         \<and> sent_on_LumberjackOut (outcome_trace w) = [])
             (writers (Lumberjack_Run lower seg input sched))"
    unfolding Run_writers
    by (simp add: list_all_iff only_writer_calls_no_sends [OF writer_calls_only_writer_calls])
  then show ?thesis
    by (simp add: Run_returned_main_trace [OF assms] sent_forward sent_start_writers
        sent_on_Out_def [of "[close_Out, writerWG_Wait, wg_Done]"]
        sent_on_LumberjackOut_def [of "[close_Out, writerWG_Wait, wg_Done]"])
qed

subsection \<open>A configuration without the batchdebug option\<close>

lemma New_plain:
  "Lumberjack_New url_Parse_sample ParseDuration_sample Lumberjack_zero config_plain
     = Inr segment_plain"
  by (simp add: New_eval_defs config_plain_def segment_plain_def)

lemma New_without_batchdebug:
  assumes "Lumberjack_New url_Parse ParseDuration Lumberjack_zero config = Inr seg"
    and "cfg config ''batchdebug'' = []"
  shows "BatchDebugPrintf seg = None"
  using New_fields(4) [OF assms(1)] assms(2)
  by (simp add: parse_batchdebug_def Lumberjack_zero_def)

lemma New_batchsize_one:
  assumes "Lumberjack_New url_Parse ParseDuration segment config = Inr seg"
    and "cfg config ''batchsize'' = ''1''"
  shows "BatchSize seg = 1"
proof -
  have "parse_batchsize ''1'' = Inr 1"
    by (simp add: parse_batchsize_def bindE_def strip_underscores_def Atoi_def is_digit_def
        digit_val_def)
  with New_fields(2) [OF assms(1)] assms(2) show ?thesis by simp
qed

lemma New_queue_capacity:
  assumes "Lumberjack_New url_Parse ParseDuration segment config = Inr seg"
  shows "64 \<le> LumberjackOut_cap seg"
proof -
  from assms have "parse_queuesize (cfg config ''queuesize'') = Inr (LumberjackOut_cap seg)"
    unfolding Lumberjack_New_def bindE_Inr by auto
  then show ?thesis
    by (auto simp: parse_queuesize_def bindE_def defaultQueueSize_def
        split: if_splits option.splits)
qed

lemma parse_server_Parallelism:
  "parse_server up dc raw = Inr (host, opts) \<Longrightarrow> 1 \<le> Parallelism opts"
  by (auto simp: parse_server_def bindE_Inr parse_count_def
      split: option.splits if_splits prod.splits)

lemma map_store_Parallelism:
  "1 \<le> Parallelism v \<Longrightarrow> list_all (\<lambda>(h, opts). 1 \<le> Parallelism opts) xs \<Longrightarrow>
   list_all (\<lambda>(h, opts). 1 \<le> Parallelism opts) (map_store k v xs)"
  by (induction xs) auto

lemma parse_servers_Parallelism:
  "parse_servers up dc raws acc = Inr servers \<Longrightarrow>
   list_all (\<lambda>(h, opts). 1 \<le> Parallelism opts) acc \<Longrightarrow>
   list_all (\<lambda>(h, opts). 1 \<le> Parallelism opts) servers"
proof (induction raws arbitrary: acc)
  case Nil
  then show ?case by simp
next
  case (Cons raw raws)
  from Cons.prems(1) obtain host opts where
    one: "parse_server up dc raw = Inr (host, opts)"
    and rest: "parse_servers up dc raws (map_store host opts acc) = Inr servers"
    by (auto simp: bindE_Inr)
  from parse_server_Parallelism [OF one] Cons.prems(2)
  have "list_all (\<lambda>(h, opts). 1 \<le> Parallelism opts) (map_store host opts acc)"
    by (rule map_store_Parallelism)
  with rest show ?case by (rule Cons.IH)
qed

lemma New_has_writer:
  assumes "Lumberjack_New url_Parse ParseDuration segment config = Inr seg"
  shows "0 < num_writers seg"
proof -
  from New_fields(1) [OF assms] obtain dc where
    "parse_servers url_Parse dc (map TrimSpace (Split (cfg config ''servers'') CHR '','')) []
       = Inr (Servers seg)" by blast
  then have all: "list_all (\<lambda>(h, opts). 1 \<le> Parallelism opts) (Servers seg)"
    by (rule parse_servers_Parallelism) simp
  from New_has_server [OF assms] obtain h opts rest where s: "Servers seg = (h, opts) # rest"
    by (cases "Servers seg") auto
  with all have "1 \<le> Parallelism opts" by simp
  with s show ?thesis by (simp add: num_writers_def)
qed

text \<open>
  Claim C6 (fails on the code). The claim: every record received on \<open>In\<close> is sent once on
  \<open>Out\<close> and put once into the queue. The code: \<open>New\<close> assigns \<open>BatchDebugPrintf\<close> only when
  the option \<open>batchdebug\<close> is given; without it the field stays \<open>nil\<close>, and the writer that
  sends the first full batch panics when it calls it, which ends the process. With a
  batch size of 1: the segment's goroutine receives a record and puts it into the queue,
  a writer takes it, sends it and panics, and the process has ended with the record in
  the queue's history but not sent on \<open>Out\<close>; the records after it are never received.
\<close>

theorem lumberjack_crash_before_forward:
  assumes "Lumberjack_New url_Parse ParseDuration Lumberjack_zero config = Inr seg"
    and "cfg config ''batchdebug'' = []"
    and "cfg config ''batchsize'' = ''1''"
    and "ECSFromEnrichedFlow lower now msg = Inr doc"
  shows "\<exists>p. Lumberjack_exec lower seg
                [main_moves, main_moves, writer_moves 0 (takes_LumberjackOut now ok)]
                (process_init seg (msg # rest)) = Some p
           \<and> crashed p = Some NilFuncCall
           \<and> enqueued p = [msg]
           \<and> forwarded p = []
           \<and> In_pending p = rest"
proof -
  have printf: "BatchDebugPrintf seg = None"
    by (rule New_without_batchdebug [OF assms(1,2)])
  have size: "BatchSize seg = 1"
    by (rule New_batchsize_one [OF assms(1,3)])
  have cap: "0 < LumberjackOut_cap seg"
    using New_queue_capacity [OF assms(1)] by simp
  from New_has_writer [OF assms(1)] obtain n where n: "num_writers seg = Suc n"
    by (cases "num_writers seg") auto
  have step: "writer_step lower seg (recv_flow msg now) (writer_init seg)
      = Panicked NilFuncCall
          ((writer_init seg)\<lparr>flowInterface := [Some doc], idx := 1,
                             trace := [timer_Stop, client_Send [Some doc]]\<rparr>)"
    using assms(4) printf size
    by (simp add: writer_recv_def writer_init_def stop_and_drain_def
        call_BatchDebugPrintf_def did_def)
  show ?thesis
    using cap n step
    by (simp add: process_init_def process_step_def main_step_def writer_move_def settle_def)
qed

text \<open>The segment that \<open>New\<close> makes of the configuration without \<open>batchdebug\<close>.\<close>

theorem lumberjack_crash_before_forward_witness:
  "Lumberjack_New url_Parse_sample ParseDuration_sample Lumberjack_zero config_plain
     = Inr segment_plain
   \<and> cfg config_plain ''batchdebug'' = []
   \<and> cfg config_plain ''batchsize'' = ''1''
   \<and> ECSFromEnrichedFlow lowercase_sample 5 (Some flow_sample) = Inr doc_sample
   \<and> (\<exists>p. Lumberjack_exec lowercase_sample segment_plain
              [main_moves, main_moves, writer_moves 0 (takes_LumberjackOut 5 True)]
              (process_init segment_plain [Some flow_sample, Some flow_sample]) = Some p
          \<and> crashed p = Some NilFuncCall
          \<and> enqueued p = [Some flow_sample]
          \<and> forwarded p = []
          \<and> In_pending p = [Some flow_sample])"
proof -
  have c: "cfg config_plain ''batchdebug'' = []" "cfg config_plain ''batchsize'' = ''1''"
    by (simp_all add: cfg_def config_plain_def)
  from lumberjack_crash_before_forward [OF New_plain c ECS_sample] New_plain c ECS_sample
  show ?thesis by blast
qed

section \<open>Properties of the goflow segment\<close>

lemma listen_loop_None:
  "listen_loop url_Parse as acc = None \<longleftrightarrow> \<not> list_all (listen_url_ok url_Parse) as"
  by (induction as arbitrary: acc) (auto simp: listen_url_ok_def split: option.splits)

lemma parse_workers_None: "parse_workers s = None \<longleftrightarrow> ParseUint s 32 = Some 0"
  by (auto simp: parse_workers_def ParseUint_def split: option.splits if_splits)

text \<open>
  Claim C8 (fails on the code). The claim: \<open>New\<close> returns an instance for every
  configuration whose listen URLs all parse with a supported scheme and a valid port.
  The code: with the one listen URL \<open>netflow://:2055\<close>, which passes all checks, and
  \<open>workers\<close> set to 0, \<open>New\<close> returns \<open>nil\<close>.
\<close>

theorem goflow_New_workers_zero_counterexample:
  "list_all (listen_url_ok url_Parse_sample)
     (listen_addresses [''listen'' \<mapsto> ''netflow://:2055'', ''workers'' \<mapsto> ''0''])
   \<and> Goflow_New url_Parse_sample [''listen'' \<mapsto> ''netflow://:2055'', ''workers'' \<mapsto> ''0''] = None"
  by (simp add: Goflow_New_def listen_addresses_def cfg_def url_Parse_sample_def
      parse_workers_def ParseUint_def URL_Port_def validOptionalPort_def is_digit_def
      digit_val_def supported_scheme_def listen_url_ok_def)

text \<open>
  Claim C8, amended. \<open>New\<close> returns an instance exactly for the configurations whose
  listen URLs all parse with a supported scheme and a valid port and whose \<open>workers\<close>
  option does not parse to 0; for every other configuration it returns \<open>nil\<close>.
\<close>

theorem goflow_New_instance_iff:
  "Goflow_New url_Parse config \<noteq> None \<longleftrightarrow>
     list_all (listen_url_ok url_Parse) (listen_addresses config) \<and> \<not> workers_parse_to_zero config"
proof -
  have "Goflow_New url_Parse config = None \<longleftrightarrow>
          listen_loop url_Parse (listen_addresses config) [] = None
          \<or> parse_workers (cfg config ''workers'') = None"
    by (simp add: Goflow_New_def split: option.splits)
  then show ?thesis
    by (simp add: listen_loop_None parse_workers_None workers_parse_to_zero_def)
qed

text \<open>The empty configuration: the two default listen addresses and one worker.\<close>

theorem goflow_New_instance_iff_witness:
  "Goflow_New url_Parse_sample Map.empty \<noteq> None
   \<and> list_all (listen_url_ok url_Parse_sample) (listen_addresses Map.empty)
   \<and> \<not> workers_parse_to_zero Map.empty"
proof -
  have "list_all (listen_url_ok url_Parse_sample) (listen_addresses Map.empty)
        \<and> \<not> workers_parse_to_zero Map.empty"
    by (simp add: listen_addresses_def cfg_def url_Parse_sample_def
      ParseUint_def URL_Port_def validOptionalPort_def is_digit_def
      digit_val_def supported_scheme_def listen_url_ok_def workers_parse_to_zero_def)
  then show ?thesis
    using goflow_New_instance_iff [of url_Parse_sample Map.empty] by simp
qed

lemma Goflow_loop_keeps_sent:
  "set out \<subseteq> set (Out_sent (Goflow_loop b es out))"
  by (induction b es out rule: Goflow_loop.induct) auto

text \<open>
  Claim C9 (fails on the code). The claim: every value sent on \<open>Out\<close> is a flow record
  that is not \<open>nil\<close>, also when the decoder channel is seen closed. The code: the case of
  \<open>goflow_in\<close> sends the received value on \<open>Out\<close> whether or not the channel was open, and
  a closed channel yields \<open>nil\<close>; so when the first event of a run is the closing of the
  decoder channel, \<open>nil\<close> is among the values sent, whatever follows.
\<close>

theorem goflow_closed_decoder_sends_nil:
  "None \<in> set (Out_sent (Goflow_Run (goflow_in_closed # es)))"
  using Goflow_loop_keeps_sent [of "[None]" False es] by (simp add: Goflow_Run_def)

lemma goflow_sample: "Goflow_Run [goflow_in_closed, In_closed] =
   \<lparr>Out_sent = [None], Out_closed = True, wg_Done_called = True\<rparr>"
  by (simp add: Goflow_Run_def)

end
